theory Spec2Isabelle
  imports Complex_Main
begin

section \<open>Python values used by the dashboard code\<close>

text \<open>
  The dashboard is Python. Its integers are unbounded (\<open>int\<close>; lengths are \<open>nat\<close>), its
  strings are byte strings here (the arrow of the log messages is written as its three
  UTF-8 bytes), and its dictionaries with a fixed set of keys are records. A dictionary
  that the code leaves empty (\<open>{}\<close>) is \<open>None\<close>, one that it has filled is \<open>Some\<close> of the
  record, because these are the only two shapes the code ever builds. Wall-clock reads
  (\<open>datetime.now()\<close>), sleeps and calls of the system logger carry no logic and are left
  out; a time stamp that a function receives as an argument is kept.
\<close>

text \<open>\<open>d.get(key)\<close> and \<open>d.get(key, default)\<close> on such a dictionary.\<close>

definition dict_get :: "('r \<Rightarrow> 'a) \<Rightarrow> 'r option \<Rightarrow> 'a option" where
  "dict_get field d = (case d of None \<Rightarrow> None | Some r \<Rightarrow> Some (field r))"

definition dict_get_or :: "('r \<Rightarrow> 'a) \<Rightarrow> 'a \<Rightarrow> 'r option \<Rightarrow> 'a" where
  "dict_get_or field dflt d = (case d of None \<Rightarrow> dflt | Some r \<Rightarrow> field r)"

text \<open>
  The slice \<open>xs[i:]\<close>: a negative start counts from the end and is clipped at the front of
  the list, a start beyond the end gives the empty list. \<open>xs[-n:]\<close> is
  \<open>slice_from (- n) xs\<close>, and since \<open>-0 = 0\<close> the slice \<open>xs[-0:]\<close> is all of \<open>xs\<close>.
\<close>

definition slice_from :: "int \<Rightarrow> 'a list \<Rightarrow> 'a list" where
  "slice_from i xs =
     (if i < 0 then drop (nat (int (length xs) + i)) xs else drop (nat i) xs)"

text \<open>
  \<open>int(x)\<close> of a number with a fractional part truncates toward zero. The source divides in
  binary floating point; the model divides exactly, in the rationals.
\<close>

definition py_int :: "rat \<Rightarrow> int" where
  "py_int x = (if 0 \<le> x then \<lfloor>x\<rfloor> else \<lceil>x\<rceil>)"

text \<open>\<open>str(n)\<close> of an integer, in decimal.\<close>

fun digits :: "nat \<Rightarrow> string" where
  "digits n =
     (if n < 10 then [char_of (48 + n)] else digits (n div 10) @ [char_of (48 + n mod 10)])"

definition str_int :: "int \<Rightarrow> string" where
  "str_int i = (if i < 0 then CHR ''-'' # digits (nat (- i)) else digits (nat i))"

text \<open>\<open>str(v)\<close> of a value that is a string or \<open>None\<close>, as an f-string prints it.\<close>

definition str_opt :: "string option \<Rightarrow> string" where
  "str_opt v = (case v of None \<Rightarrow> ''None'' | Some s \<Rightarrow> s)"

text \<open>The arrow U+2192 of the log messages, in UTF-8.\<close>

definition arrow :: string where
  "arrow = [CHR 0xE2, CHR 0x86, CHR 0x92]"


section \<open>The monitor's data (monitoring.py)\<close>

text \<open>
  The sub-dictionaries of a metrics snapshot, with the keys that the modelled functions
  read (response times, \<open>ha_enabled\<close> and the virtual-core and node counters of the
  performance metrics are never read by them). Node counts are lengths of lists.
\<close>

record ha_metrics =
  active_healthy :: bool
  standby_healthy :: bool
  active_state :: string
  standby_state :: string

record node_metrics =
  total_datanodes :: nat
  healthy_datanodes :: nat
  total_nodemanagers :: nat
  healthy_nodemanagers :: nat
  total_journalnodes :: nat
  healthy_journalnodes :: nat

record service_metrics =
  historyserver_healthy :: bool
  hive_healthy :: bool

record performance_metrics =
  total_memory :: int
  allocated_memory :: int
  pending_apps :: int

record cluster_health =
  score :: int
  max_score :: int
  percentage :: rat
  status :: string
  issues :: "string list"

record metrics =
  timestamp :: string
  cluster_health :: "cluster_health option"
  namenode_metrics :: "ha_metrics option"
  resourcemanager_metrics :: "ha_metrics option"
  node_metrics :: "node_metrics option"
  service_metrics :: "service_metrics option"
  performance_metrics :: "performance_metrics option"
  error :: "string option"

record log_entry =
  timestamp :: string
  level :: string
  message :: string

text \<open>The state of a \<open>ClusterMonitor\<close>; \<open>init_monitor\<close> is what \<open>__init__\<close> sets.\<close>

record monitor =
  monitoring :: bool
  current_metrics :: "metrics option"
  metrics_history :: "metrics list"
  logs :: "log_entry list"
  max_history_size :: int
  max_logs_size :: int

definition init_monitor :: monitor where
  "init_monitor =
     \<lparr>monitoring = False, current_metrics = None, metrics_history = [], logs = [],
      max_history_size = 100, max_logs_size = 200\<rparr>"


section \<open>Bounded buffers and their readers\<close>

definition add_to_history :: "monitor \<Rightarrow> metrics \<Rightarrow> monitor" where
  "add_to_history m metrics =
     (let m1 = m\<lparr>metrics_history := metrics_history m @ [metrics]\<rparr>
      in if int (length (metrics_history m1)) > max_history_size m1
         then m1\<lparr>metrics_history := slice_from (- max_history_size m1) (metrics_history m1)\<rparr>
         else m1)"

definition add_log :: "monitor \<Rightarrow> string \<Rightarrow> string \<Rightarrow> string \<Rightarrow> monitor" where
  "add_log m lvl msg ts =
     (let entry = \<lparr>log_entry.timestamp = ts, level = lvl, message = msg\<rparr>;
          m1 = m\<lparr>logs := logs m @ [entry]\<rparr>
      in if int (length (logs m1)) > max_logs_size m1
         then m1\<lparr>logs := slice_from (- max_logs_size m1) (logs m1)\<rparr>
         else m1)"

definition get_metrics_history :: "monitor \<Rightarrow> int \<Rightarrow> metrics list" where
  "get_metrics_history m limit =
     (if metrics_history m \<noteq> [] then slice_from (- limit) (metrics_history m) else [])"

definition get_recent_logs :: "monitor \<Rightarrow> int \<Rightarrow> log_entry list" where
  "get_recent_logs m limit =
     (if logs m \<noteq> [] then slice_from (- limit) (logs m) else [])"

text \<open>
  A run of the two append operations, in the order in which the monitoring loop issues
  them, and the sequences of everything a run has appended.
\<close>

datatype buffer_op = AddToHistory metrics | AddLog string string string

fun apply_op :: "monitor \<Rightarrow> buffer_op \<Rightarrow> monitor" where
  "apply_op m (AddToHistory metrics) = add_to_history m metrics"
| "apply_op m (AddLog lvl msg ts) = add_log m lvl msg ts"

definition run_ops :: "monitor \<Rightarrow> buffer_op list \<Rightarrow> monitor" where
  "run_ops m ops = foldl apply_op m ops"

fun appended_snapshots :: "buffer_op list \<Rightarrow> metrics list" where
  "appended_snapshots [] = []"
| "appended_snapshots (AddToHistory metrics # ops) = metrics # appended_snapshots ops"
| "appended_snapshots (AddLog lvl msg ts # ops) = appended_snapshots ops"

fun appended_logs :: "buffer_op list \<Rightarrow> log_entry list" where
  "appended_logs [] = []"
| "appended_logs (AddToHistory metrics # ops) = appended_logs ops"
| "appended_logs (AddLog lvl msg ts # ops) =
     \<lparr>log_entry.timestamp = ts, level = lvl, message = msg\<rparr> # appended_logs ops"


section \<open>Health aggregation\<close>

text \<open>
  The node counters of a snapshot, as \<open>_collect_metrics\<close> fills them from the node lists of
  the cluster status. A DataNode or NodeManager entry is represented by the value under its
  key \<open>state\<close> (\<open>None\<close> when the key is missing), a JournalNode entry by its flag
  \<open>healthy\<close>.
\<close>

definition collect_node_metrics ::
  "string option list \<Rightarrow> string option list \<Rightarrow> bool list \<Rightarrow> node_metrics" where
  "collect_node_metrics datanodes nodemanagers journalnodes =
     \<lparr>total_datanodes = length datanodes,
      healthy_datanodes = length (filter (\<lambda>dn. dn = Some ''NORMAL'') datanodes),
      total_nodemanagers = length nodemanagers,
      healthy_nodemanagers = length (filter (\<lambda>nm. nm = Some ''RUNNING'') nodemanagers),
      total_journalnodes = length journalnodes,
      healthy_journalnodes = length (filter (\<lambda>jn. jn) journalnodes)\<rparr>"

text \<open>A string between single quotes, as the f-strings of the issue messages write it.\<close>

definition quoted :: "string \<Rightarrow> string" where
  "quoted s = [CHR 0x27] @ s @ [CHR 0x27]"

text \<open>
  \<open>_identify_issues\<close>. The memory usage is a float in the source and a rational here; the
  text that \<open>{memory_usage:.1f}\<close> prints for it is the parameter \<open>fmt\<close>.
\<close>

definition identify_issues :: "(rat \<Rightarrow> string) \<Rightarrow> metrics \<Rightarrow> string list" where
  "identify_issues fmt m =
     (let iss = [];
          nn_metrics = namenode_metrics m;
          iss = (if \<not> dict_get_or active_healthy False nn_metrics
                 then iss @ [''Active NameNode is unhealthy''] else iss);
          iss = (if \<not> dict_get_or standby_healthy False nn_metrics
                 then iss @ [''Standby NameNode is unhealthy''] else iss);
          iss = (if dict_get active_state nn_metrics \<noteq> Some ''active''
                 then iss @ [''Active NameNode is in ''
                        @ quoted (str_opt (dict_get active_state nn_metrics)) @ '' state'']
                 else iss);
          iss = (if dict_get standby_state nn_metrics \<noteq> Some ''standby''
                 then iss @ [''Standby NameNode is in ''
                        @ quoted (str_opt (dict_get standby_state nn_metrics)) @ '' state'']
                 else iss);
          rm_metrics = resourcemanager_metrics m;
          iss = (if \<not> dict_get_or active_healthy False rm_metrics
                 then iss @ [''Active ResourceManager is unhealthy''] else iss);
          iss = (if \<not> dict_get_or standby_healthy False rm_metrics
                 then iss @ [''Standby ResourceManager is unhealthy''] else iss);
          iss = (if dict_get active_state rm_metrics \<noteq> Some ''active''
                 then iss @ [''Active ResourceManager is in ''
                        @ quoted (str_opt (dict_get active_state rm_metrics)) @ '' state'']
                 else iss);
          iss = (if dict_get standby_state rm_metrics \<noteq> Some ''standby''
                 then iss @ [''Standby ResourceManager is in ''
                        @ quoted (str_opt (dict_get standby_state rm_metrics)) @ '' state'']
                 else iss);
          nodes = node_metrics m;
          unhealthy_datanodes =
            int (dict_get_or total_datanodes 0 nodes) - int (dict_get_or healthy_datanodes 0 nodes);
          iss = (if unhealthy_datanodes > 0
                 then iss @ [str_int unhealthy_datanodes @ '' DataNode(s) are unhealthy'']
                 else iss);
          unhealthy_nodemanagers =
            int (dict_get_or total_nodemanagers 0 nodes)
              - int (dict_get_or healthy_nodemanagers 0 nodes);
          iss = (if unhealthy_nodemanagers > 0
                 then iss @ [str_int unhealthy_nodemanagers @ '' NodeManager(s) are unhealthy'']
                 else iss);
          unhealthy_journalnodes =
            int (dict_get_or total_journalnodes 0 nodes)
              - int (dict_get_or healthy_journalnodes 0 nodes);
          iss = (if unhealthy_journalnodes > 0
                 then iss @ [str_int unhealthy_journalnodes @ '' JournalNode(s) are unhealthy'']
                 else iss);
          services = service_metrics m;
          iss = (if \<not> dict_get_or historyserver_healthy False services
                 then iss @ [''History Server is unhealthy''] else iss);
          iss = (if \<not> dict_get_or hive_healthy False services
                 then iss @ [''Hive WebUI is unhealthy''] else iss);
          perf_metrics = performance_metrics m;
          iss = (if dict_get_or total_memory 0 perf_metrics > 0
                 then (let memory_usage =
                             (rat_of_int (dict_get_or allocated_memory 0 perf_metrics)
                                / rat_of_int (dict_get_or total_memory 1 perf_metrics)) * 100
                       in if memory_usage > 90
                          then iss @ [''High memory usage: '' @ fmt memory_usage @ ''%'']
                          else iss)
                 else iss);
          iss = (if dict_get_or pending_apps 0 perf_metrics > 5
                 then iss @ [str_int (dict_get_or pending_apps 0 perf_metrics)
                        @ '' applications are pending'']
                 else iss)
      in iss)"

text \<open>\<open>_calculate_cluster_health\<close>: the score is accumulated in the order of the source.\<close>

definition calculate_cluster_health :: "(rat \<Rightarrow> string) \<Rightarrow> metrics \<Rightarrow> cluster_health" where
  "calculate_cluster_health fmt m =
     (let health_score = (0::int);
          max_points = (100::int);
          nn_metrics = namenode_metrics m;
          health_score =
            (if dict_get_or active_healthy False nn_metrics
                \<and> dict_get active_state nn_metrics = Some ''active''
             then health_score + 15 else health_score);
          health_score =
            (if dict_get_or standby_healthy False nn_metrics
                \<and> dict_get standby_state nn_metrics = Some ''standby''
             then health_score + 10 else health_score);
          rm_metrics = resourcemanager_metrics m;
          health_score =
            (if dict_get_or active_healthy False rm_metrics
                \<and> dict_get active_state rm_metrics = Some ''active''
             then health_score + 15 else health_score);
          health_score =
            (if dict_get_or standby_healthy False rm_metrics
                \<and> dict_get standby_state rm_metrics = Some ''standby''
             then health_score + 10 else health_score);
          nodes = node_metrics m;
          total_dn = dict_get_or total_datanodes 1 nodes;
          healthy_dn = dict_get_or healthy_datanodes 0 nodes;
          health_score =
            (if total_dn > 0
             then health_score + py_int ((rat_of_nat healthy_dn / rat_of_nat total_dn) * 15)
             else health_score);
          total_nm = dict_get_or total_nodemanagers 1 nodes;
          healthy_nm = dict_get_or healthy_nodemanagers 0 nodes;
          health_score =
            (if total_nm > 0
             then health_score + py_int ((rat_of_nat healthy_nm / rat_of_nat total_nm) * 15)
             else health_score);
          services = service_metrics m;
          health_score =
            (if dict_get_or historyserver_healthy False services
             then health_score + 10 else health_score);
          health_score =
            (if dict_get_or hive_healthy False services
             then health_score + 10 else health_score);
          health_percentage = (rat_of_int health_score / rat_of_int max_points) * 100;
          category =
            (if health_percentage \<ge> 90 then ''excellent''
             else if health_percentage \<ge> 75 then ''good''
             else if health_percentage \<ge> 50 then ''warning''
             else ''critical'')
      in \<lparr>score = health_score, max_score = max_points, percentage = health_percentage,
          status = category, issues = identify_issues fmt m\<rparr>)"


section \<open>The event differ\<close>

text \<open>
  Each check of \<open>_check_for_events\<close> is modelled by the sequence of its calls of
  \<open>_add_log\<close>, in order; \<open>log_call lvl msg ts\<close> stands for \<open>self._add_log(lvl, msg, ts)\<close>.
  \<open>_check_ha_state_changes\<close> repeats one test for four fields, which is \<open>state_change\<close>
  here.
\<close>

definition log_call :: "string \<Rightarrow> string \<Rightarrow> string \<Rightarrow> log_entry" where
  "log_call lvl msg ts = \<lparr>log_entry.timestamp = ts, level = lvl, message = msg\<rparr>"

definition state_change ::
  "string \<Rightarrow> string option \<Rightarrow> string option \<Rightarrow> string \<Rightarrow> log_entry list" where
  "state_change what prev_state curr_state ts =
     (if curr_state \<noteq> prev_state
      then [log_call ''warning''
              (what @ '' state changed: '' @ str_opt prev_state @ '' '' @ arrow @ '' ''
                 @ str_opt curr_state) ts]
      else [])"

definition check_ha_state_changes :: "metrics \<Rightarrow> metrics \<Rightarrow> string \<Rightarrow> log_entry list" where
  "check_ha_state_changes current previous ts =
     (let curr_nn = namenode_metrics current;
          prev_nn = namenode_metrics previous;
          curr_rm = resourcemanager_metrics current;
          prev_rm = resourcemanager_metrics previous
      in state_change ''NameNode active''
           (dict_get active_state prev_nn) (dict_get active_state curr_nn) ts
       @ state_change ''NameNode standby''
           (dict_get standby_state prev_nn) (dict_get standby_state curr_nn) ts
       @ state_change ''ResourceManager active''
           (dict_get active_state prev_rm) (dict_get active_state curr_rm) ts
       @ state_change ''ResourceManager standby''
           (dict_get standby_state prev_rm) (dict_get standby_state curr_rm) ts)"

text \<open>
  The two issue lists are compared as sets. Python iterates a set in an order of its own;
  the model takes the order of first occurrence.
\<close>

definition check_health_changes :: "metrics \<Rightarrow> metrics \<Rightarrow> string \<Rightarrow> log_entry list" where
  "check_health_changes current previous ts =
     (let curr_health = cluster_health current;
          prev_health = cluster_health previous;
          curr_status = dict_get status curr_health;
          prev_status = dict_get status prev_health;
          status_logs =
            (if curr_status \<noteq> prev_status
             then [log_call
                     (if curr_status = Some ''warning'' \<or> curr_status = Some ''critical''
                      then ''error'' else ''info'')
                     (''Cluster health status changed: '' @ str_opt prev_status @ '' '' @ arrow
                        @ '' '' @ str_opt curr_status) ts]
             else []);
          curr_issues = remdups (dict_get_or issues [] curr_health);
          prev_issues = remdups (dict_get_or issues [] prev_health);
          new_issues = filter (\<lambda>issue. issue \<notin> set prev_issues) curr_issues;
          resolved_issues = filter (\<lambda>issue. issue \<notin> set curr_issues) prev_issues
      in status_logs
       @ map (\<lambda>issue. log_call ''warning'' (''New issue detected: '' @ issue) ts) new_issues
       @ map (\<lambda>issue. log_call ''info'' (''Issue resolved: '' @ issue) ts) resolved_issues)"

definition check_performance_issues ::
  "(rat \<Rightarrow> string) \<Rightarrow> metrics \<Rightarrow> string \<Rightarrow> log_entry list" where
  "check_performance_issues fmt current ts =
     (let perf_metrics = performance_metrics current;
          memory_logs =
            (if dict_get_or total_memory 0 perf_metrics > 0
             then (let memory_usage =
                         (rat_of_int (dict_get_or allocated_memory 0 perf_metrics)
                            / rat_of_int (dict_get_or total_memory 1 perf_metrics)) * 100
                   in if memory_usage > 95
                      then [log_call ''error''
                              (''Critical memory usage: '' @ fmt memory_usage @ ''%'') ts]
                      else if memory_usage > 85
                      then [log_call ''warning''
                              (''High memory usage: '' @ fmt memory_usage @ ''%'') ts]
                      else [])
             else []);
          pending = dict_get_or pending_apps 0 perf_metrics
      in memory_logs
       @ (if pending > 10
          then [log_call ''warning''
                  (''High number of pending applications: '' @ str_int pending) ts]
          else []))"

text \<open>
  The differ proper: what \<open>_check_for_events\<close> logs once it has a previous snapshot, and
  \<open>_check_for_events\<close> itself, which takes the last but one entry of the history as the
  previous snapshot and does nothing while the history has fewer than two entries.
\<close>

definition event_differ ::
  "(rat \<Rightarrow> string) \<Rightarrow> metrics \<Rightarrow> metrics \<Rightarrow> string \<Rightarrow> log_entry list" where
  "event_differ fmt current previous ts =
     check_ha_state_changes current previous ts
       @ check_health_changes current previous ts
       @ check_performance_issues fmt current ts"

definition check_for_events ::
  "(rat \<Rightarrow> string) \<Rightarrow> monitor \<Rightarrow> metrics \<Rightarrow> string \<Rightarrow> monitor" where
  "check_for_events fmt m metrics ts =
     (if length (metrics_history m) < 2 then m
      else (let current = metrics;
                previous = metrics_history m ! (length (metrics_history m) - 2)
            in foldl (\<lambda>m1 e. add_log m1 (level e) (message e) (log_entry.timestamp e)) m
                 (event_differ fmt current previous ts)))"


section \<open>The failover orchestrator (failover.py)\<close>

text \<open>
  \<open>FailoverManager\<close> has one workflow for the NameNode pair and one for the ResourceManager
  pair. The two are the same code up to the names they print, so the model has one
  function for each step, with the service as an argument, and the names of the source
  are instances of it.
\<close>

datatype service = NameNode | ResourceManager

fun label :: "service \<Rightarrow> string" where
  "label NameNode = ''NameNode''"
| "label ResourceManager = ''ResourceManager''"

fun active_node_name :: "service \<Rightarrow> string" where
  "active_node_name NameNode = ''active-nn''"
| "active_node_name ResourceManager = ''active-rm''"

fun standby_node_name :: "service \<Rightarrow> string" where
  "standby_node_name NameNode = ''standby-nn''"
| "standby_node_name ResourceManager = ''standby-rm''"

fun failover_type :: "service \<Rightarrow> string" where
  "failover_type NameNode = ''namenode_failover''"
| "failover_type ResourceManager = ''resourcemanager_failover''"

fun command_prefix :: "service \<Rightarrow> string" where
  "command_prefix NameNode =
     ''docker exec active-nn /usr/local/hadoop/bin/hdfs haadmin -failover ''"
| "command_prefix ResourceManager =
     ''docker exec active-rm /usr/local/hadoop/bin/yarn rmadmin -failover ''"

fun output_prefix :: "service \<Rightarrow> string" where
  "output_prefix NameNode = ''Failover from ''"
| "output_prefix ResourceManager = ''ResourceManager failover from ''"

text \<open>
  What the probe (\<open>get_namenode_status\<close>, \<open>get_resourcemanager_status\<close>) answers: the status
  records of the two role slots, or an exception of class \<open>Exception\<close> with its message
  (the other exceptions are the subject of a section of their own below). Of a status
  record the workflow reads \<open>is_active\<close> only.
\<close>

record node_status =
  healthy :: bool
  ha_state :: string
  is_active :: bool

record ha_status =
  active :: node_status
  standby :: node_status

datatype probe_reply = Raises string | Returns ha_status

text \<open>
  The values stored under the keys of a step's \<open>data\<close> dictionary, and the step and result
  dictionaries. A key that a step dictionary does not have is \<open>None\<close> in \<open>data\<close>, \<open>command\<close>
  and \<open>output\<close>; \<open>error\<close> is a key of every step, and \<open>None\<close> there is Python's \<open>None\<close>.
\<close>

datatype pyval = PBool bool | PInt int | PStr string | PNode node_status | PStatus ha_status

record step_result =
  step :: string
  success :: bool
  data :: "(string \<times> pyval) list option"
  command :: "string option"
  "output" :: "string option"
  error :: "string option"

record failover_result =
  type :: string
  success :: bool
  steps :: "step_result list"
  error :: "string option"

text \<open>
  \<open>d[key]\<close> for an entry that holds a string. A missing key raises \<open>KeyError\<close>, whose text
  is the quoted key.
\<close>

definition subscript_str :: "(string \<times> pyval) list option \<Rightarrow> string \<Rightarrow> string + string" where
  "subscript_str d key =
     (case d of
        None \<Rightarrow> Inl (quoted ''data'')
      | Some kvs \<Rightarrow>
          (case map_of kvs key of Some (PStr s) \<Rightarrow> Inr s | _ \<Rightarrow> Inl (quoted key)))"

text \<open>Step 1: \<open>_check_namenode_status\<close> and \<open>_check_resourcemanager_status\<close>.\<close>

definition check_status :: "service \<Rightarrow> probe_reply \<Rightarrow> step_result" where
  "check_status svc reply =
     (let step_result =
            \<lparr>step = ''check_status'', step_result.success = False, data = Some [],
             command = None, output = None, step_result.error = None\<rparr>
      in case reply of
           Raises e \<Rightarrow> step_result\<lparr>step_result.error := Some e\<rparr>
         | Returns nn_status \<Rightarrow>
             (case (if is_active (active nn_status)
                    then Inr (active_node_name svc, standby_node_name svc)
                    else if is_active (standby nn_status)
                    then Inr (standby_node_name svc, active_node_name svc)
                    else Inl (''No active '' @ label svc @ '' found'')) of
                Inl e \<Rightarrow> step_result\<lparr>step_result.error := Some e\<rparr>
              | Inr (active_node, standby_node) \<Rightarrow>
                  step_result
                    \<lparr>data := Some [(''current_active'', PStr active_node),
                                   (''current_standby'', PStr standby_node),
                                   (''active_status'', PNode (active nn_status)),
                                   (''standby_status'', PNode (standby nn_status))],
                     step_result.success := True\<rparr>))"

text \<open>
  Step 2: \<open>_execute_namenode_failover\<close> and \<open>_execute_resourcemanager_failover\<close>. The
  command is built and recorded, not run.
\<close>

definition execute_failover :: "service \<Rightarrow> string \<Rightarrow> string \<Rightarrow> bool \<Rightarrow> step_result" where
  "execute_failover svc current_active current_standby force =
     (let step_result =
            \<lparr>step = ''execute_failover'', step_result.success = False, data = None,
             command = Some [], output = Some [], step_result.error = None\<rparr>;
          force_flag = (if force then ''--forcemanual'' else []);
          cmd = command_prefix svc @ force_flag @ '' '' @ current_active @ '' ''
                  @ current_standby
      in step_result
           \<lparr>command := Some cmd,
            output := Some (output_prefix svc @ current_active @ '' to '' @ current_standby
                              @ '' initiated''),
            step_result.success := True\<rparr>)"

text \<open>
  Step 3: \<open>_verify_namenode_failover\<close> and \<open>_verify_resourcemanager_failover\<close>. The loop
  \<open>for attempt in range(max_attempts)\<close> is \<open>verify_loop\<close>: \<open>attempt\<close> is the loop variable,
  the next argument the number of iterations left, \<open>latest\<close> the value of the loop's
  variable \<open>nn_status\<close> (\<open>None\<close> while it is unbound), and \<open>probe i\<close> the answer to the
  \<open>i\<close>-th status request of the step. An exception leaves the loop (\<open>Inl\<close>). The test
  that the body of the loop makes on the polled pair is \<open>switched\<close>.
\<close>

definition max_attempts :: nat where
  "max_attempts = 6"

definition switched :: "service \<Rightarrow> string \<Rightarrow> ha_status \<Rightarrow> bool" where
  "switched svc old_active nn_status =
     (let expected_new_active =
            (if old_active = active_node_name svc then is_active (standby nn_status)
             else is_active (active nn_status));
          expected_new_standby =
            (if old_active = active_node_name svc then \<not> is_active (active nn_status)
             else \<not> is_active (standby nn_status))
      in expected_new_active \<and> expected_new_standby)"

fun verify_loop ::
  "service \<Rightarrow> (nat \<Rightarrow> probe_reply) \<Rightarrow> string \<Rightarrow> nat \<Rightarrow> nat \<Rightarrow> step_result
     \<Rightarrow> ha_status option \<Rightarrow> string + (step_result \<times> ha_status option)" where
  "verify_loop svc probe old_active attempt 0 step_result latest = Inr (step_result, latest)"
| "verify_loop svc probe old_active attempt (Suc n) step_result latest =
     (case probe attempt of
        Raises e \<Rightarrow> Inl e
      | Returns nn_status \<Rightarrow>
          if switched svc old_active nn_status
          then Inr (step_result
                      \<lparr>data := Some [(''failover_verified'', PBool True),
                                     (''new_active'',
                                        PStr (if old_active = active_node_name svc
                                              then standby_node_name svc
                                              else active_node_name svc)),
                                     (''new_standby'', PStr old_active),
                                     (''attempts'', PInt (int attempt + 1)),
                                     (''final_status'', PStatus nn_status)],
                       step_result.success := True\<rparr>,
                    Some nn_status)
          else verify_loop svc probe old_active (Suc attempt) n step_result (Some nn_status))"

text \<open>
  After the loop the source reads \<open>nn_status\<close>. The loop has run at least once by then, so
  it is bound; were it not, the read would raise \<open>UnboundLocalError\<close>, which the step's
  handler would record as any other exception.
\<close>

definition unbound_local :: string where
  "unbound_local =
     ''cannot access local variable '' @ quoted ''nn_status''
       @ '' where it is not associated with a value''"

definition verify_failover ::
  "service \<Rightarrow> (nat \<Rightarrow> probe_reply) \<Rightarrow> string \<Rightarrow> string \<Rightarrow> step_result" where
  "verify_failover svc probe old_active old_standby =
     (let step_result =
            \<lparr>step = ''verify_failover'', step_result.success = False, data = Some [],
             command = None, output = None, step_result.error = None\<rparr>
      in case verify_loop svc probe old_active 0 max_attempts step_result None of
           Inl e \<Rightarrow> step_result\<lparr>step_result.error := Some e\<rparr>
         | Inr (sr, latest) \<Rightarrow>
             if \<not> step_result.success sr
             then (case latest of
                     None \<Rightarrow>
                       sr\<lparr>step_result.error := Some unbound_local\<rparr>
                   | Some nn_status \<Rightarrow>
                       sr\<lparr>step_result.error :=
                            Some (''Failover verification failed after ''
                                    @ str_int (int max_attempts) @ '' attempts''),
                          data := Some [(''failover_verified'', PBool False),
                                        (''final_status'', PStatus nn_status)]\<rparr>)
             else sr)"

text \<open>
  The workflow, \<open>namenode_failover\<close> and \<open>resourcemanager_failover\<close>. \<open>failover_body\<close> is the
  body of the \<open>try\<close>: it returns the result dictionary as it stands when the body ends,
  together with the message of the exception that ended it, if one did. \<open>failover\<close> adds
  the \<open>except\<close> clause. The probe answers request 0 in step 1 and the later requests in
  step 3.
\<close>

definition error_step :: "string \<Rightarrow> step_result" where
  "error_step error_msg =
     \<lparr>step = ''error'', step_result.success = False, data = None, command = None,
      output = None, step_result.error = Some error_msg\<rparr>"

definition failover_body ::
  "service \<Rightarrow> (nat \<Rightarrow> probe_reply) \<Rightarrow> bool \<Rightarrow> failover_result
     \<Rightarrow> string option \<times> failover_result" where
  "failover_body svc probe force failover_result =
     (let step1 = check_status svc (probe 0);
          r1 = failover_result\<lparr>steps := steps failover_result @ [step1]\<rparr>
      in if \<not> step_result.success step1
         then (Some (''Failed to get initial '' @ label svc @ '' status''), r1)
         else
           (case subscript_str (data step1) ''current_active'' of
              Inl e \<Rightarrow> (Some e, r1)
            | Inr current_active \<Rightarrow>
           (case subscript_str (data step1) ''current_standby'' of
              Inl e \<Rightarrow> (Some e, r1)
            | Inr current_standby \<Rightarrow>
                (let step2 = execute_failover svc current_active current_standby force;
                     r2 = r1\<lparr>steps := steps r1 @ [step2]\<rparr>
                 in if \<not> step_result.success step2
                    then (Some (''Failover command failed: ''
                                  @ str_opt (step_result.error step2)), r2)
                    else
                      (let step3 = verify_failover svc (\<lambda>i. probe (Suc i))
                                     current_active current_standby;
                           r3 = r2\<lparr>steps := steps r2 @ [step3]\<rparr>
                       in (None, r3\<lparr>success := step_result.success step3\<rparr>))))))"

definition failover :: "service \<Rightarrow> (nat \<Rightarrow> probe_reply) \<Rightarrow> bool \<Rightarrow> failover_result" where
  "failover svc probe force =
     (let failover_result =
            \<lparr>type = failover_type svc, success = False, steps = [], error = None\<rparr>
      in case failover_body svc probe force failover_result of
           (None, r) \<Rightarrow> r
         | (Some error_msg, r) \<Rightarrow>
             r\<lparr>error := Some error_msg, steps := steps r @ [error_step error_msg]\<rparr>)"

definition check_namenode_status :: "probe_reply \<Rightarrow> step_result" where
  "check_namenode_status = check_status NameNode"

definition check_resourcemanager_status :: "probe_reply \<Rightarrow> step_result" where
  "check_resourcemanager_status = check_status ResourceManager"

definition execute_namenode_failover :: "string \<Rightarrow> string \<Rightarrow> bool \<Rightarrow> step_result" where
  "execute_namenode_failover = execute_failover NameNode"

definition execute_resourcemanager_failover :: "string \<Rightarrow> string \<Rightarrow> bool \<Rightarrow> step_result" where
  "execute_resourcemanager_failover = execute_failover ResourceManager"

definition verify_namenode_failover ::
  "(nat \<Rightarrow> probe_reply) \<Rightarrow> string \<Rightarrow> string \<Rightarrow> step_result" where
  "verify_namenode_failover = verify_failover NameNode"

definition verify_resourcemanager_failover ::
  "(nat \<Rightarrow> probe_reply) \<Rightarrow> string \<Rightarrow> string \<Rightarrow> step_result" where
  "verify_resourcemanager_failover = verify_failover ResourceManager"

definition namenode_failover :: "(nat \<Rightarrow> probe_reply) \<Rightarrow> bool \<Rightarrow> failover_result" where
  "namenode_failover = failover NameNode"

definition resourcemanager_failover :: "(nat \<Rightarrow> probe_reply) \<Rightarrow> bool \<Rightarrow> failover_result" where
  "resourcemanager_failover = failover ResourceManager"


section \<open>Awaits that end outside \<open>Exception\<close>\<close>

text \<open>
  Every handler of failover.py is \<open>except Exception\<close>. An awaited call can also end in an
  exception that is not of class \<open>Exception\<close>, such as \<open>asyncio.CancelledError\<close> when the
  task is cancelled; no handler of the workflow catches it, so it leaves the function that
  awaited and every function that called it. The functions above are the code for awaits
  that complete (the probe by answering or by raising an \<open>Exception\<close>). The functions of
  this section are the same code with the other ending of each await: \<open>Escapes b\<close> is an
  await that ends in such an exception \<open>b\<close>, and \<open>Inl b\<close>, or \<open>Escaped b\<close> in the loop, is
  a call that \<open>b\<close> leaves.

  The awaits of a run are the status requests (\<open>probe_await w 0\<close> in step 1,
  \<open>probe_await w (Suc k)\<close> in attempt \<open>k\<close> of the verification), the sleep of step 2
  (\<open>command_sleep\<close>), the sleep before step 3 (\<open>settle_sleep\<close>) and the sleep at the start of
  attempt \<open>k\<close> (\<open>poll_sleep w k\<close>).
\<close>

datatype 'a awaited = Escapes string | Completes 'a

record awaits =
  probe_await :: "nat \<Rightarrow> probe_reply awaited"
  command_sleep :: "unit awaited"
  settle_sleep :: "unit awaited"
  poll_sleep :: "nat \<Rightarrow> unit awaited"

datatype 'a outcome = Escaped string | Raised string | Done 'a

definition check_status_await :: "service \<Rightarrow> awaits \<Rightarrow> string + step_result" where
  "check_status_await svc w =
     (case probe_await w 0 of
        Escapes b \<Rightarrow> Inl b
      | Completes reply \<Rightarrow> Inr (check_status svc reply))"

definition execute_failover_await ::
  "service \<Rightarrow> awaits \<Rightarrow> string \<Rightarrow> string \<Rightarrow> bool \<Rightarrow> string + step_result" where
  "execute_failover_await svc w current_active current_standby force =
     (case command_sleep w of
        Escapes b \<Rightarrow> Inl b
      | Completes u \<Rightarrow> Inr (execute_failover svc current_active current_standby force))"

fun verify_loop_await ::
  "service \<Rightarrow> awaits \<Rightarrow> string \<Rightarrow> nat \<Rightarrow> nat \<Rightarrow> step_result \<Rightarrow> ha_status option
     \<Rightarrow> (step_result \<times> ha_status option) outcome" where
  "verify_loop_await svc w old_active attempt 0 step_result latest = Done (step_result, latest)"
| "verify_loop_await svc w old_active attempt (Suc n) step_result latest =
     (case poll_sleep w attempt of
        Escapes b \<Rightarrow> Escaped b
      | Completes u \<Rightarrow>
          (case probe_await w (Suc attempt) of
             Escapes b \<Rightarrow> Escaped b
           | Completes (Raises e) \<Rightarrow> Raised e
           | Completes (Returns nn_status) \<Rightarrow>
               if switched svc old_active nn_status
               then Done (step_result
                            \<lparr>data := Some [(''failover_verified'', PBool True),
                                           (''new_active'',
                                              PStr (if old_active = active_node_name svc
                                                    then standby_node_name svc
                                                    else active_node_name svc)),
                                           (''new_standby'', PStr old_active),
                                           (''attempts'', PInt (int attempt + 1)),
                                           (''final_status'', PStatus nn_status)],
                             step_result.success := True\<rparr>,
                          Some nn_status)
               else verify_loop_await svc w old_active (Suc attempt) n step_result
                      (Some nn_status)))"

definition verify_failover_await ::
  "service \<Rightarrow> awaits \<Rightarrow> string \<Rightarrow> string \<Rightarrow> string + step_result" where
  "verify_failover_await svc w old_active old_standby =
     (let step_result =
            \<lparr>step = ''verify_failover'', step_result.success = False, data = Some [],
             command = None, output = None, step_result.error = None\<rparr>
      in case verify_loop_await svc w old_active 0 max_attempts step_result None of
           Escaped b \<Rightarrow> Inl b
         | Raised e \<Rightarrow> Inr (step_result\<lparr>step_result.error := Some e\<rparr>)
         | Done (sr, latest) \<Rightarrow>
             Inr (if \<not> step_result.success sr
                  then (case latest of
                          None \<Rightarrow> sr\<lparr>step_result.error := Some unbound_local\<rparr>
                        | Some nn_status \<Rightarrow>
                            sr\<lparr>step_result.error :=
                                 Some (''Failover verification failed after ''
                                         @ str_int (int max_attempts) @ '' attempts''),
                               data := Some [(''failover_verified'', PBool False),
                                             (''final_status'', PStatus nn_status)]\<rparr>)
                  else sr))"

definition failover_body_await ::
  "service \<Rightarrow> awaits \<Rightarrow> bool \<Rightarrow> failover_result
     \<Rightarrow> string + (string option \<times> failover_result)" where
  "failover_body_await svc w force failover_result =
     (case check_status_await svc w of
        Inl b \<Rightarrow> Inl b
      | Inr step1 \<Rightarrow>
          (let r1 = failover_result\<lparr>steps := steps failover_result @ [step1]\<rparr>
           in if \<not> step_result.success step1
              then Inr (Some (''Failed to get initial '' @ label svc @ '' status''), r1)
              else
                (case subscript_str (data step1) ''current_active'' of
                   Inl e \<Rightarrow> Inr (Some e, r1)
                 | Inr current_active \<Rightarrow>
                (case subscript_str (data step1) ''current_standby'' of
                   Inl e \<Rightarrow> Inr (Some e, r1)
                 | Inr current_standby \<Rightarrow>
                (case execute_failover_await svc w current_active current_standby force of
                   Inl b \<Rightarrow> Inl b
                 | Inr step2 \<Rightarrow>
                     (let r2 = r1\<lparr>steps := steps r1 @ [step2]\<rparr>
                      in if \<not> step_result.success step2
                         then Inr (Some (''Failover command failed: ''
                                           @ str_opt (step_result.error step2)), r2)
                         else
                           (case settle_sleep w of
                              Escapes b \<Rightarrow> Inl b
                            | Completes u \<Rightarrow>
                           (case verify_failover_await svc w current_active
                                   current_standby of
                              Inl b \<Rightarrow> Inl b
                            | Inr step3 \<Rightarrow>
                                (let r3 = r2\<lparr>steps := steps r2 @ [step3]\<rparr>
                                 in Inr (None,
                                         r3\<lparr>success := step_result.success step3\<rparr>))))))))))"

definition failover_await :: "service \<Rightarrow> awaits \<Rightarrow> bool \<Rightarrow> string + failover_result" where
  "failover_await svc w force =
     (let failover_result =
            \<lparr>type = failover_type svc, success = False, steps = [], error = None\<rparr>
      in case failover_body_await svc w force failover_result of
           Inl b \<Rightarrow> Inl b
         | Inr (None, r) \<Rightarrow> Inr r
         | Inr (Some error_msg, r) \<Rightarrow>
             Inr (r\<lparr>error := Some error_msg, steps := steps r @ [error_step error_msg]\<rparr>))"

definition namenode_failover_await :: "awaits \<Rightarrow> bool \<Rightarrow> string + failover_result" where
  "namenode_failover_await = failover_await NameNode"

definition resourcemanager_failover_await :: "awaits \<Rightarrow> bool \<Rightarrow> string + failover_result" where
  "resourcemanager_failover_await = failover_await ResourceManager"

text \<open>The awaits of a run in which every await completes and the probe answers as given.\<close>

definition quiet_awaits :: "(nat \<Rightarrow> probe_reply) \<Rightarrow> awaits" where
  "quiet_awaits probe =
     \<lparr>probe_await = (\<lambda>i. Completes (probe i)), command_sleep = Completes (),
      settle_sleep = Completes (), poll_sleep = (\<lambda>i. Completes ())\<rparr>"


section \<open>Notions the properties are stated with\<close>

text \<open>The last \<open>c\<close> entries of a list, in their order.\<close>

definition keep_last :: "nat \<Rightarrow> 'a list \<Rightarrow> 'a list" where
  "keep_last c xs = drop (length xs - c) xs"

text \<open>
  The score as the specification words it: a fixed number of points for each role slot
  that is healthy and reports its own role, the share \<open>healthy / total\<close> of fifteen
  points, rounded down, for each class of worker nodes whose total is positive, and ten
  points for each auxiliary service. A counter that the snapshot does not have reads as
  the source's default.
\<close>

definition node_points :: "nat \<Rightarrow> nat \<Rightarrow> int" where
  "node_points healthy_count total_count =
     (if total_count > 0
      then \<lfloor>(rat_of_nat healthy_count / rat_of_nat total_count) * 15\<rfloor> else 0)"

definition spec_score :: "metrics \<Rightarrow> int" where
  "spec_score m =
     (if dict_get_or active_healthy False (namenode_metrics m)
         \<and> dict_get active_state (namenode_metrics m) = Some ''active'' then 15 else 0)
   + (if dict_get_or standby_healthy False (namenode_metrics m)
         \<and> dict_get standby_state (namenode_metrics m) = Some ''standby'' then 10 else 0)
   + (if dict_get_or active_healthy False (resourcemanager_metrics m)
         \<and> dict_get active_state (resourcemanager_metrics m) = Some ''active'' then 15 else 0)
   + (if dict_get_or standby_healthy False (resourcemanager_metrics m)
         \<and> dict_get standby_state (resourcemanager_metrics m) = Some ''standby''
      then 10 else 0)
   + node_points (dict_get_or healthy_datanodes 0 (node_metrics m))
       (dict_get_or total_datanodes 1 (node_metrics m))
   + node_points (dict_get_or healthy_nodemanagers 0 (node_metrics m))
       (dict_get_or total_nodemanagers 1 (node_metrics m))
   + (if dict_get_or historyserver_healthy False (service_metrics m) then 10 else 0)
   + (if dict_get_or hive_healthy False (service_metrics m) then 10 else 0)"

text \<open>The status that the thresholds of the specification give to a score.\<close>

definition status_of_score :: "int \<Rightarrow> string" where
  "status_of_score s =
     (if s \<ge> 90 then ''excellent'' else if s \<ge> 75 then ''good''
      else if s \<ge> 50 then ''warning'' else ''critical'')"

text \<open>
  In each class of worker nodes the healthy nodes are among the counted ones. This holds
  of every snapshot that \<open>_collect_metrics\<close> builds (\<open>collect_counts_consistent\<close> below).
\<close>

definition counts_consistent :: "metrics \<Rightarrow> bool" where
  "counts_consistent m =
     (case node_metrics m of
        None \<Rightarrow> True
      | Some n \<Rightarrow> healthy_datanodes n \<le> total_datanodes n
                \<and> healthy_nodemanagers n \<le> total_nodemanagers n)"


text \<open>
  What step 1 reads off a status pair: the slot it takes as the active node (the first slot
  whenever that one reports active) and the slot it takes as the standby node.
\<close>

definition current_active_of :: "service \<Rightarrow> ha_status \<Rightarrow> string" where
  "current_active_of svc st =
     (if is_active (active st) then active_node_name svc else standby_node_name svc)"

definition current_standby_of :: "service \<Rightarrow> ha_status \<Rightarrow> string" where
  "current_standby_of svc st =
     (if is_active (active st) then standby_node_name svc else active_node_name svc)"

text \<open>The message of the exception that the workflow raises when step 1 has failed.\<close>

definition initial_failure :: "service \<Rightarrow> string" where
  "initial_failure svc = ''Failed to get initial '' @ label svc @ '' status''"

text \<open>\<open>step["data"].get(key)\<close>, and \<open>None\<close> for a step without \<open>data\<close>.\<close>

definition step_data_get :: "step_result \<Rightarrow> string \<Rightarrow> pyval option" where
  "step_data_get s key = (case data s of None \<Rightarrow> None | Some kvs \<Rightarrow> map_of kvs key)"

text \<open>
  The categories in which two snapshots can differ for the event differ: the four reported
  role states, the status, and the set of issues.
\<close>

definition state_fields :: "metrics \<Rightarrow> string option list" where
  "state_fields m =
     [dict_get active_state (namenode_metrics m), dict_get standby_state (namenode_metrics m),
      dict_get active_state (resourcemanager_metrics m),
      dict_get standby_state (resourcemanager_metrics m)]"

definition differing_states :: "metrics \<Rightarrow> metrics \<Rightarrow> nat" where
  "differing_states current previous =
     length (filter (\<lambda>(c, p). c \<noteq> p) (zip (state_fields current) (state_fields previous)))"

definition status_differs :: "metrics \<Rightarrow> metrics \<Rightarrow> bool" where
  "status_differs current previous =
     (dict_get status (cluster_health current) \<noteq> dict_get status (cluster_health previous))"

definition issues_differ :: "metrics \<Rightarrow> metrics \<Rightarrow> bool" where
  "issues_differ current previous =
     (set (dict_get_or issues [] (cluster_health current))
        \<noteq> set (dict_get_or issues [] (cluster_health previous)))"

definition differing_categories :: "metrics \<Rightarrow> metrics \<Rightarrow> nat" where
  "differing_categories current previous =
     differing_states current previous
       + (if status_differs current previous then 1 else 0)
       + (if issues_differ current previous then 1 else 0)"

text \<open>
  A snapshot on which the performance check stays silent: memory use at most 85 percent
  (or no positive total), and at most ten pending applications.
\<close>

definition performance_quiet :: "metrics \<Rightarrow> bool" where
  "performance_quiet m =
     ((dict_get_or total_memory 0 (performance_metrics m) \<le> 0
        \<or> (rat_of_int (dict_get_or allocated_memory 0 (performance_metrics m))
              / rat_of_int (dict_get_or total_memory 1 (performance_metrics m))) * 100 \<le> 85)
      \<and> dict_get_or pending_apps 0 (performance_metrics m) \<le> 10)"


text \<open>
  The first \<open>k\<close> attempts of the verification went by without an end: each sleep
  completed, and each status request returned a pair that has not switched.
\<close>

fun quiet_polls :: "service \<Rightarrow> string \<Rightarrow> awaits \<Rightarrow> nat \<Rightarrow> bool" where
  "quiet_polls svc old_active w 0 = True"
| "quiet_polls svc old_active w (Suc k) =
     (quiet_polls svc old_active w k
      \<and> poll_sleep w k = Completes ()
      \<and> (case probe_await w (Suc k) of
            Completes (Returns s) \<Rightarrow> \<not> switched svc old_active s
          | _ \<Rightarrow> False))"

definition returned :: "probe_reply awaited \<Rightarrow> ha_status option" where
  "returned a = (case a of Completes (Returns s) \<Rightarrow> Some s | _ \<Rightarrow> None)"

text \<open>
  The step dictionaries a run can record, written out: step 1 failed with a message,
  step 1 succeeded on a status pair, step 2 on the roles read off that pair, and step 3
  after an exception of the probe, after the switch was seen in attempt \<open>k\<close> (attempts are
  counted from 0, the entry \<open>attempts\<close> from 1), and after six attempts without it.
\<close>

definition failed_check_step :: "string \<Rightarrow> step_result" where
  "failed_check_step e =
     \<lparr>step = ''check_status'', step_result.success = False, data = Some [],
      command = None, output = None, step_result.error = Some e\<rparr>"

definition checked_step :: "service \<Rightarrow> ha_status \<Rightarrow> step_result" where
  "checked_step svc st =
     \<lparr>step = ''check_status'', step_result.success = True,
      data = Some [(''current_active'', PStr (current_active_of svc st)),
                   (''current_standby'', PStr (current_standby_of svc st)),
                   (''active_status'', PNode (active st)),
                   (''standby_status'', PNode (standby st))],
      command = None, output = None, step_result.error = None\<rparr>"

definition executed_step :: "service \<Rightarrow> ha_status \<Rightarrow> bool \<Rightarrow> step_result" where
  "executed_step svc st force =
     \<lparr>step = ''execute_failover'', step_result.success = True, data = None,
      command = Some (command_prefix svc @ (if force then ''--forcemanual'' else []) @ '' ''
                        @ current_active_of svc st @ '' '' @ current_standby_of svc st),
      output = Some (output_prefix svc @ current_active_of svc st @ '' to ''
                       @ current_standby_of svc st @ '' initiated''),
      step_result.error = None\<rparr>"

definition verify_raised_step :: "string \<Rightarrow> step_result" where
  "verify_raised_step e =
     \<lparr>step = ''verify_failover'', step_result.success = False, data = Some [],
      command = None, output = None, step_result.error = Some e\<rparr>"

definition verified_step :: "service \<Rightarrow> ha_status \<Rightarrow> nat \<Rightarrow> ha_status \<Rightarrow> step_result" where
  "verified_step svc st k s =
     \<lparr>step = ''verify_failover'', step_result.success = True,
      data = Some [(''failover_verified'', PBool True),
                   (''new_active'', PStr (current_standby_of svc st)),
                   (''new_standby'', PStr (current_active_of svc st)),
                   (''attempts'', PInt (int k + 1)),
                   (''final_status'', PStatus s)],
      command = None, output = None, step_result.error = None\<rparr>"

definition verify_exhausted_step :: "ha_status \<Rightarrow> step_result" where
  "verify_exhausted_step s =
     \<lparr>step = ''verify_failover'', step_result.success = False,
      data = Some [(''failover_verified'', PBool False), (''final_status'', PStatus s)],
      command = None, output = None,
      step_result.error = Some ''Failover verification failed after 6 attempts''\<rparr>"

text \<open>
  The two results a run can return: stopped after a failed step 1, with the \<open>error\<close> step
  and the top-level error that the handler of the workflow adds, and completed with a
  third step, with no \<open>error\<close> step and no top-level error.
\<close>

definition stopped_result :: "service \<Rightarrow> step_result \<Rightarrow> failover_result" where
  "stopped_result svc step1 =
     \<lparr>type = failover_type svc, success = False,
      steps = [step1, error_step (initial_failure svc)],
      error = Some (initial_failure svc)\<rparr>"

definition completed_result ::
  "service \<Rightarrow> ha_status \<Rightarrow> bool \<Rightarrow> step_result \<Rightarrow> failover_result" where
  "completed_result svc st force step3 =
     \<lparr>type = failover_type svc, success = step_result.success step3,
      steps = [checked_step svc st, executed_step svc st force, step3],
      error = None\<rparr>"


section \<open>Example inputs\<close>

text \<open>
  A stand-in for the text of a float, for the examples: it prints the whole part. No
  example below reaches it.
\<close>

definition whole_part :: "rat \<Rightarrow> string" where
  "whole_part q = str_int \<lfloor>q\<rfloor>"

definition ha_in_role :: ha_metrics where
  "ha_in_role =
     \<lparr>active_healthy = True, standby_healthy = True, active_state = ''active'',
      standby_state = ''standby''\<rparr>"

definition ha_standby_lost :: ha_metrics where
  "ha_standby_lost =
     \<lparr>active_healthy = True, standby_healthy = False, active_state = ''active'',
      standby_state = ''unreachable''\<rparr>"

text \<open>
  A snapshot with the given role metrics, DataNode counts (healthy, total), NodeManager
  counts, service flags and number of pending applications; it has no memory figures.
\<close>

definition example_snapshot ::
  "ha_metrics option \<Rightarrow> ha_metrics option \<Rightarrow> nat \<times> nat \<Rightarrow> nat \<times> nat \<Rightarrow> bool \<times> bool \<Rightarrow> int
     \<Rightarrow> metrics" where
  "example_snapshot nn rm dn nm sv pending =
     \<lparr>metrics.timestamp = ''2024-01-01T00:00:00'',
      cluster_health = None,
      namenode_metrics = nn,
      resourcemanager_metrics = rm,
      node_metrics =
        Some \<lparr>total_datanodes = snd dn, healthy_datanodes = fst dn,
              total_nodemanagers = snd nm, healthy_nodemanagers = fst nm,
              total_journalnodes = 3, healthy_journalnodes = 3\<rparr>,
      service_metrics = Some \<lparr>historyserver_healthy = fst sv, hive_healthy = snd sv\<rparr>,
      performance_metrics =
        Some \<lparr>total_memory = 0, allocated_memory = 0, pending_apps = pending\<rparr>,
      metrics.error = None\<rparr>"

definition snapshot_fifty :: metrics where
  "snapshot_fifty =
     example_snapshot (Some ha_in_role) None (15, 15) (0, 1) (False, True) 0"

definition snapshot_forty_nine :: metrics where
  "snapshot_forty_nine =
     example_snapshot (Some ha_in_role) None (14, 15) (0, 1) (False, True) 0"

definition snapshot_halves :: metrics where
  "snapshot_halves =
     example_snapshot (Some ha_in_role) (Some ha_standby_lost) (1, 2) (2, 3) (True, False) 0"


definition snapshot_full :: metrics where
  "snapshot_full =
     example_snapshot (Some ha_in_role) (Some ha_in_role) (3, 3) (3, 3) (True, True) 0"

definition snapshot_backlog :: metrics where
  "snapshot_backlog =
     example_snapshot (Some ha_in_role) (Some ha_in_role) (3, 3) (3, 3) (True, True) 11"

text \<open>A snapshot with its health filled in, as \<open>_collect_metrics\<close> does last.\<close>

definition with_health :: "metrics \<Rightarrow> metrics" where
  "with_health m = m\<lparr>cluster_health := Some (calculate_cluster_health whole_part m)\<rparr>"

text \<open>Status records, status pairs and probes for the failover examples.\<close>

definition node_up :: node_status where
  "node_up = \<lparr>healthy = True, ha_state = ''active'', is_active = True\<rparr>"

definition node_down :: node_status where
  "node_down = \<lparr>healthy = True, ha_state = ''standby'', is_active = False\<rparr>"

definition first_active :: ha_status where
  "first_active = \<lparr>active = node_up, standby = node_down\<rparr>"

definition second_active :: ha_status where
  "second_active = \<lparr>active = node_down, standby = node_up\<rparr>"

definition both_active :: ha_status where
  "both_active = \<lparr>active = node_up, standby = node_up\<rparr>"

definition none_active :: ha_status where
  "none_active = \<lparr>active = node_down, standby = node_down\<rparr>"

text \<open>
  A pair that never switches, a probe that answers the first request and raises on every
  later one, and a pair that has switched at the fourth request (the third poll of the
  verification).
\<close>

definition probe_stuck :: "nat \<Rightarrow> probe_reply" where
  "probe_stuck i = Returns first_active"

definition probe_breaks :: "nat \<Rightarrow> probe_reply" where
  "probe_breaks i = (if i = 0 then Returns first_active else Raises ''boom'')"

definition probe_switches :: "nat \<Rightarrow> probe_reply" where
  "probe_switches i = (if i < 3 then Returns first_active else Returns second_active)"


text \<open>
  A snapshot worth sixty points before its nodes are counted, and a snapshot with the node
  counters that \<open>_collect_metrics\<close> computes from the given node lists.
\<close>

definition snapshot_sixty :: metrics where
  "snapshot_sixty =
     example_snapshot (Some ha_in_role) (Some ha_in_role) (0, 0) (0, 0) (False, True) 0"

definition with_nodes :: "metrics \<Rightarrow> string option list \<Rightarrow> string option list \<Rightarrow> metrics" where
  "with_nodes m datanodes nodemanagers =
     m\<lparr>node_metrics := Some (collect_node_metrics datanodes nodemanagers [])\<rparr>"

text \<open>
  A probe that raises in the fourth attempt of the verification, and a run that is
  cancelled in the sleep of the second attempt.
\<close>

definition probe_fails_late :: "nat \<Rightarrow> probe_reply" where
  "probe_fails_late i = (if i = 4 then Raises ''timed out'' else Returns first_active)"

definition awaits_cancelled :: awaits where
  "awaits_cancelled =
     (quiet_awaits probe_stuck)
       \<lparr>poll_sleep := (\<lambda>k. if k = 1 then Escapes ''CancelledError'' else Completes ())\<rparr>"


section \<open>Properties of the bounded buffers\<close>

lemma slice_from_last: "0 < c \<Longrightarrow> slice_from (- int c) xs = keep_last c xs"
  by (simp add: slice_from_def keep_last_def nat_diff_distrib' flip: of_nat_diff)

lemma keep_last_snoc:
  "0 < c \<Longrightarrow> keep_last c (keep_last c xs @ [x]) = keep_last c (xs @ [x])"
  by (cases "length xs < c") (auto simp: keep_last_def Suc_diff_le)

lemma keep_last_short: "length xs \<le> c \<Longrightarrow> keep_last c xs = xs"
  by (simp add: keep_last_def)

lemma length_keep_last: "length (keep_last c xs) = min c (length xs)"
  by (simp add: keep_last_def)

lemma add_to_history_keeps:
  assumes "max_history_size m = int c" "0 < c"
  shows "metrics_history (add_to_history m x) = keep_last c (metrics_history m @ [x])"
    and "logs (add_to_history m x) = logs m"
    and "max_history_size (add_to_history m x) = max_history_size m"
    and "max_logs_size (add_to_history m x) = max_logs_size m"
  using assms by (auto simp: add_to_history_def Let_def slice_from_last keep_last_short)

lemma add_log_keeps:
  assumes "max_logs_size m = int c" "0 < c"
  shows "logs (add_log m lvl msg ts) = keep_last c (logs m @ [log_call lvl msg ts])"
    and "metrics_history (add_log m lvl msg ts) = metrics_history m"
    and "max_history_size (add_log m lvl msg ts) = max_history_size m"
    and "max_logs_size (add_log m lvl msg ts) = max_logs_size m"
  using assms by (auto simp: add_log_def log_call_def Let_def slice_from_last keep_last_short)

lemma appended_snapshots_append:
  "appended_snapshots (xs @ ys) = appended_snapshots xs @ appended_snapshots ys"
  by (induction xs rule: appended_snapshots.induct) auto

lemma appended_logs_append:
  "appended_logs (xs @ ys) = appended_logs xs @ appended_logs ys"
  by (induction xs rule: appended_logs.induct) auto

lemma appended_snapshots_replicate:
  "appended_snapshots (replicate n (AddToHistory x)) = replicate n x"
  by (induction n) auto

lemma appended_logs_replicate:
  "appended_logs (replicate n (AddToHistory x)) = []"
  by (induction n) auto

lemma run_ops_snoc: "run_ops m (ops @ [op]) = apply_op (run_ops m ops) op"
  by (simp add: run_ops_def)

text \<open>
  The invariant of a run, for any positive capacities: each buffer is the last
  \<open>capacity\<close> entries of what was appended to it.
\<close>

lemma run_ops_invariant:
  assumes "max_history_size m0 = int ch" "0 < ch" "max_logs_size m0 = int cl" "0 < cl"
    "metrics_history m0 = []" "logs m0 = []"
  shows "max_history_size (run_ops m0 ops) = int ch
       \<and> max_logs_size (run_ops m0 ops) = int cl
       \<and> metrics_history (run_ops m0 ops) = keep_last ch (appended_snapshots ops)
       \<and> logs (run_ops m0 ops) = keep_last cl (appended_logs ops)"
proof (induction ops rule: rev_induct)
  case Nil
  show ?case using assms by (simp add: run_ops_def keep_last_def)
next
  case (snoc op ops)
  let ?m = "run_ops m0 ops"
  from snoc have h: "max_history_size ?m = int ch" and l: "max_logs_size ?m = int cl"
    and hs: "metrics_history ?m = keep_last ch (appended_snapshots ops)"
    and ls: "logs ?m = keep_last cl (appended_logs ops)" by simp_all
  show ?case
  proof (cases op)
    case (AddToHistory x)
    show ?thesis
      unfolding run_ops_snoc AddToHistory apply_op.simps
      by (simp add: add_to_history_keeps[OF h assms(2)] h l hs ls keep_last_snoc[OF assms(2)]
          appended_snapshots_append appended_logs_append)
  next
    case (AddLog lvl msg ts)
    show ?thesis
      unfolding run_ops_snoc AddLog apply_op.simps
      by (simp add: add_log_keeps[OF l assms(4)] h l hs ls keep_last_snoc[OF assms(4)]
          appended_snapshots_append appended_logs_append log_call_def)
  qed
qed

text \<open>
  C4. After any finite sequence of \<open>_add_to_history\<close> and \<open>_add_log\<close> calls on a fresh
  monitor, the history holds at most \<open>max_history_size = 100\<close> entries and the log at most
  \<open>max_logs_size = 200\<close>; each buffer is the last 100 (200) of the entries appended to it,
  in the order of their insertion, so the entries dropped are the oldest ones.
\<close>

theorem buffers_bounded_fifo:
  "int (length (metrics_history (run_ops init_monitor ops)))
       \<le> max_history_size (run_ops init_monitor ops)
   \<and> max_history_size (run_ops init_monitor ops) = 100
   \<and> int (length (logs (run_ops init_monitor ops))) \<le> max_logs_size (run_ops init_monitor ops)
   \<and> max_logs_size (run_ops init_monitor ops) = 200
   \<and> metrics_history (run_ops init_monitor ops) = keep_last 100 (appended_snapshots ops)
   \<and> logs (run_ops init_monitor ops) = keep_last 200 (appended_logs ops)"
proof -
  have a: "max_history_size init_monitor = int 100" and b: "max_logs_size init_monitor = int 200"
    and c: "metrics_history init_monitor = []" and d: "logs init_monitor = []"
    by (simp_all add: init_monitor_def)
  have "max_history_size (run_ops init_monitor ops) = int 100
       \<and> max_logs_size (run_ops init_monitor ops) = int 200
       \<and> metrics_history (run_ops init_monitor ops) = keep_last 100 (appended_snapshots ops)
       \<and> logs (run_ops init_monitor ops) = keep_last 200 (appended_logs ops)"
    by (rule run_ops_invariant[OF a _ b _ c d]) simp_all
  then show ?thesis by (simp add: length_keep_last)
qed

theorem buffers_bounded_fifo_witness:
  "metrics_history
     (run_ops init_monitor
        (replicate 150 (AddToHistory snapshot_fifty) @ [AddToHistory snapshot_forty_nine]))
     = replicate 99 snapshot_fifty @ [snapshot_forty_nine]
   \<and> logs
      (run_ops init_monitor
        (replicate 150 (AddToHistory snapshot_fifty) @ [AddToHistory snapshot_forty_nine]))
     = []"
  using buffers_bounded_fifo
    [of "replicate 150 (AddToHistory snapshot_fifty) @ [AddToHistory snapshot_forty_nine]"]
  by (simp add: appended_snapshots_append appended_logs_append appended_snapshots_replicate
      appended_logs_replicate keep_last_def)

lemma get_history_zero: "get_metrics_history m 0 = metrics_history m"
  by (simp add: get_metrics_history_def slice_from_def)

lemma get_logs_zero: "get_recent_logs m 0 = logs m"
  by (simp add: get_recent_logs_def slice_from_def)

lemma slice_from_limit: "1 \<le> limit \<Longrightarrow> slice_from (- limit) xs = keep_last (nat limit) xs"
  using slice_from_last[of "nat limit" xs] by simp

lemma get_history_limit:
  "1 \<le> limit \<Longrightarrow> get_metrics_history m limit = keep_last (nat limit) (metrics_history m)"
  by (simp add: get_metrics_history_def slice_from_limit keep_last_def)

lemma get_logs_limit:
  "1 \<le> limit \<Longrightarrow> get_recent_logs m limit = keep_last (nat limit) (logs m)"
  by (simp add: get_recent_logs_def slice_from_limit keep_last_def)

text \<open>
  C10. \<open>get_metrics_history\<close> and \<open>get_recent_logs\<close> with \<open>limit = 0\<close> return the whole
  buffer (so a buffer that is not empty is not returned empty); with \<open>limit \<ge> 1\<close> they
  return its last \<open>min limit length\<close> entries in insertion order, the most recent last.
\<close>

theorem readers_limit:
  "get_metrics_history m 0 = metrics_history m
   \<and> get_recent_logs m 0 = logs m
   \<and> (1 \<le> limit \<longrightarrow>
        get_metrics_history m limit = keep_last (nat limit) (metrics_history m)
      \<and> length (get_metrics_history m limit) = min (nat limit) (length (metrics_history m))
      \<and> get_recent_logs m limit = keep_last (nat limit) (logs m)
      \<and> length (get_recent_logs m limit) = min (nat limit) (length (logs m)))"
  by (simp add: get_history_zero get_logs_zero get_history_limit get_logs_limit length_keep_last)

theorem readers_limit_witness:
  "get_metrics_history
     (init_monitor\<lparr>metrics_history := [snapshot_fifty, snapshot_halves, snapshot_forty_nine]\<rparr>) 0
     = [snapshot_fifty, snapshot_halves, snapshot_forty_nine]
   \<and> get_metrics_history
       (init_monitor\<lparr>metrics_history := [snapshot_fifty, snapshot_halves, snapshot_forty_nine]\<rparr>) 2
     = [snapshot_halves, snapshot_forty_nine]
   \<and> get_recent_logs
       (init_monitor\<lparr>logs := [log_call ''info'' ''a'' ''t1'', log_call ''info'' ''b'' ''t2'']\<rparr>) 5
     = [log_call ''info'' ''a'' ''t1'', log_call ''info'' ''b'' ''t2'']"
  using readers_limit
      [of "init_monitor\<lparr>metrics_history := [snapshot_fifty, snapshot_halves, snapshot_forty_nine]\<rparr>" 2]
    readers_limit
      [of "init_monitor\<lparr>logs := [log_call ''info'' ''a'' ''t1'', log_call ''info'' ''b'' ''t2'']\<rparr>" 5]
  by (simp add: keep_last_def)


section \<open>Properties of the health score\<close>

lemma py_int_ratio:
  "py_int ((rat_of_nat h / rat_of_nat t) * 15) = \<lfloor>(rat_of_nat h / rat_of_nat t) * 15\<rfloor>"
  by (simp add: py_int_def)

lemma floor_ratio: "\<lfloor>(rat_of_nat h / rat_of_nat t) * 15\<rfloor> = int ((15 * h) div t)"
proof -
  have "(rat_of_nat h / rat_of_nat t) * 15 = rat_of_nat (15 * h) / rat_of_nat t" by simp
  then show ?thesis by (simp only: floor_divide_of_nat_eq)
qed

lemma node_points_div: "node_points h t = (if t > 0 then int ((15 * h) div t) else 0)"
  by (simp only: node_points_def floor_ratio)

lemma node_points_bounds:
  shows "0 \<le> node_points h t" and "h \<le> t \<Longrightarrow> node_points h t \<le> 15"
proof -
  show "0 \<le> node_points h t" by (simp add: node_points_div)
  assume "h \<le> t"
  then have "15 * h \<le> 15 * t" by simp
  then have "t > 0 \<Longrightarrow> (15 * h) div t \<le> 15"
    by (metis div_le_mono nonzero_mult_div_cancel_right less_numeral_extra(3))
  then show "node_points h t \<le> 15" by (simp add: node_points_div)
qed

lemma add_if: "(if c then s + k else s) = s + (if c then k else (0::int))"
  by simp

lemma score_eq: "score (calculate_cluster_health fmt m) = spec_score m"
  unfolding calculate_cluster_health_def Let_def spec_score_def node_points_def
  by (simp only: cluster_health.simps add_if py_int_ratio add_0)

lemma percentage_eq: "percentage (calculate_cluster_health fmt m) = rat_of_int (spec_score m)"
  unfolding calculate_cluster_health_def Let_def spec_score_def node_points_def
  by (simp only: cluster_health.simps add_if py_int_ratio add_0) simp

lemma status_by_percentage:
  "status (calculate_cluster_health fmt m) =
     (if percentage (calculate_cluster_health fmt m) \<ge> 90 then ''excellent''
      else if percentage (calculate_cluster_health fmt m) \<ge> 75 then ''good''
      else if percentage (calculate_cluster_health fmt m) \<ge> 50 then ''warning''
      else ''critical'')"
  unfolding calculate_cluster_health_def Let_def
  by (simp only: cluster_health.simps)

lemma status_eq:
  "status (calculate_cluster_health fmt m)
     = status_of_score (score (calculate_cluster_health fmt m))"
  by (simp only: status_by_percentage percentage_eq score_eq status_of_score_def) simp

lemma spec_score_nonneg: "0 \<le> spec_score m"
  unfolding spec_score_def
  using node_points_bounds(1)
      [of "dict_get_or healthy_datanodes 0 (node_metrics m)"
          "dict_get_or total_datanodes 1 (node_metrics m)"]
    node_points_bounds(1)
      [of "dict_get_or healthy_nodemanagers 0 (node_metrics m)"
          "dict_get_or total_nodemanagers 1 (node_metrics m)"]
  by (simp split: if_splits)

lemma consistent_counts:
  assumes "counts_consistent m"
  shows "dict_get_or healthy_datanodes 0 (node_metrics m)
           \<le> dict_get_or total_datanodes 1 (node_metrics m)"
    and "dict_get_or healthy_nodemanagers 0 (node_metrics m)
           \<le> dict_get_or total_nodemanagers 1 (node_metrics m)"
  using assms by (auto simp: counts_consistent_def dict_get_or_def split: option.splits)

lemma spec_score_le:
  assumes "counts_consistent m"
  shows "spec_score m \<le> 100"
proof -
  have a: "node_points (dict_get_or healthy_datanodes 0 (node_metrics m))
             (dict_get_or total_datanodes 1 (node_metrics m)) \<le> 15"
    by (rule node_points_bounds(2)[OF consistent_counts(1)[OF assms]])
  have b: "node_points (dict_get_or healthy_nodemanagers 0 (node_metrics m))
             (dict_get_or total_nodemanagers 1 (node_metrics m)) \<le> 15"
    by (rule node_points_bounds(2)[OF consistent_counts(2)[OF assms]])
  have i: "(if c then k else 0) \<le> k" if "0 \<le> k" for c and k :: int
    using that by simp
  show ?thesis
    unfolding spec_score_def
    using a b
      i[of 15 "dict_get_or active_healthy False (namenode_metrics m)
                 \<and> dict_get active_state (namenode_metrics m) = Some ''active''"]
      i[of 10 "dict_get_or standby_healthy False (namenode_metrics m)
                 \<and> dict_get standby_state (namenode_metrics m) = Some ''standby''"]
      i[of 15 "dict_get_or active_healthy False (resourcemanager_metrics m)
                 \<and> dict_get active_state (resourcemanager_metrics m) = Some ''active''"]
      i[of 10 "dict_get_or standby_healthy False (resourcemanager_metrics m)
                 \<and> dict_get standby_state (resourcemanager_metrics m) = Some ''standby''"]
      i[of 10 "dict_get_or historyserver_healthy False (service_metrics m)"]
      i[of 10 "dict_get_or hive_healthy False (service_metrics m)"]
    by linarith
qed

text \<open>The counters that \<open>_collect_metrics\<close> stores are consistent: they are lengths.\<close>

lemma collect_counts_consistent:
  "node_metrics m = Some (collect_node_metrics dns nms jns) \<Longrightarrow> counts_consistent m"
  by (simp add: counts_consistent_def collect_node_metrics_def)

lemmas example_defs =
  example_snapshot_def ha_in_role_def ha_standby_lost_def dict_get_def dict_get_or_def

text \<open>
  C2. \<open>_calculate_cluster_health\<close> is called in one place, by \<open>_collect_metrics\<close>, on the
  record whose node counters it has just set to the lengths of the node lists and of
  their healthy parts. For every such record, whatever its other entries, the score is
  at least 0 and at most 100. For every metrics record the status is the one that the
  thresholds give to the score: \<open>excellent\<close> from 90, \<open>good\<close> from 75 and below 90,
  \<open>warning\<close> from 50 and below 75 (so 50 is \<open>warning\<close>), \<open>critical\<close> below 50 (so 49
  is \<open>critical\<close>).
\<close>

theorem health_score_range_and_status:
  "0 \<le> score (calculate_cluster_health fmt
             (m\<lparr>node_metrics := Some (collect_node_metrics dns nms jns)\<rparr>))
   \<and> score (calculate_cluster_health fmt
             (m\<lparr>node_metrics := Some (collect_node_metrics dns nms jns)\<rparr>)) \<le> 100
   \<and> status (calculate_cluster_health fmt m2)
       = status_of_score (score (calculate_cluster_health fmt m2))"
proof -
  have "counts_consistent (m\<lparr>node_metrics := Some (collect_node_metrics dns nms jns)\<rparr>)"
    by (rule collect_counts_consistent) simp
  then show ?thesis
    using spec_score_nonneg[of "m\<lparr>node_metrics := Some (collect_node_metrics dns nms jns)\<rparr>"]
      spec_score_le[of "m\<lparr>node_metrics := Some (collect_node_metrics dns nms jns)\<rparr>"]
      status_eq[of fmt m2]
    by (simp only: score_eq)
qed

theorem health_score_range_and_status_witness:
  "score (calculate_cluster_health whole_part
       (with_nodes snapshot_fifty (replicate 15 (Some ''NORMAL'')) [None])) = 50
   \<and> status (calculate_cluster_health whole_part
       (with_nodes snapshot_fifty (replicate 15 (Some ''NORMAL'')) [None])) = ''warning''
   \<and> score (calculate_cluster_health whole_part
       (with_nodes snapshot_fifty
          (replicate 14 (Some ''NORMAL'') @ [Some ''DECOMMISSIONED'']) [None])) = 49
   \<and> status (calculate_cluster_health whole_part
       (with_nodes snapshot_fifty
          (replicate 14 (Some ''NORMAL'') @ [Some ''DECOMMISSIONED'']) [None])) = ''critical''
   \<and> score (calculate_cluster_health whole_part
       (with_nodes snapshot_sixty [Some ''NORMAL''] [Some ''LOST''])) = 75
   \<and> status (calculate_cluster_health whole_part
       (with_nodes snapshot_sixty [Some ''NORMAL''] [Some ''LOST''])) = ''good''
   \<and> score (calculate_cluster_health whole_part
       (with_nodes snapshot_sixty [Some ''NORMAL''] [Some ''RUNNING''])) = 90
   \<and> status (calculate_cluster_health whole_part
       (with_nodes snapshot_sixty [Some ''NORMAL''] [Some ''RUNNING''])) = ''excellent''"
proof -
  have a: "score (calculate_cluster_health whole_part
       (with_nodes snapshot_fifty (replicate 15 (Some ''NORMAL'')) [None])) = 50"
    by code_simp
  have b: "score (calculate_cluster_health whole_part
       (with_nodes snapshot_fifty
          (replicate 14 (Some ''NORMAL'') @ [Some ''DECOMMISSIONED'']) [None])) = 49"
    by code_simp
  have c: "score (calculate_cluster_health whole_part
       (with_nodes snapshot_sixty [Some ''NORMAL''] [Some ''LOST''])) = 75"
    by code_simp
  have d: "score (calculate_cluster_health whole_part
       (with_nodes snapshot_sixty [Some ''NORMAL''] [Some ''RUNNING''])) = 90"
    by code_simp
  show ?thesis
    using
      health_score_range_and_status[where fmt = whole_part and m = snapshot_fifty
        and dns = "replicate 15 (Some ''NORMAL'')" and nms = "[None]" and jns = "[]"
        and ?m2.0 = "with_nodes snapshot_fifty (replicate 15 (Some ''NORMAL'')) [None]"]
      health_score_range_and_status[where fmt = whole_part
        and ?m2.0 = "with_nodes snapshot_fifty
          (replicate 14 (Some ''NORMAL'') @ [Some ''DECOMMISSIONED'']) [None]"]
      health_score_range_and_status[where fmt = whole_part
        and ?m2.0 = "with_nodes snapshot_sixty [Some ''NORMAL''] [Some ''LOST'']"]
      health_score_range_and_status[where fmt = whole_part
        and ?m2.0 = "with_nodes snapshot_sixty [Some ''NORMAL''] [Some ''RUNNING'']"]
    by (simp only: a b c d) (simp add: status_of_score_def)
qed

text \<open>
  C3. The score is the sum of 15 points for a NameNode active slot that is healthy and
  reports \<open>active\<close>, 10 for a NameNode standby slot that is healthy and reports
  \<open>standby\<close>, the same for the ResourceManager, the floor of \<open>(healthy / total) * 15\<close> for
  the DataNodes and for the NodeManagers when the total is positive, and 10 each for the
  history server and Hive when healthy. The share is rounded down: it is the integer
  quotient of \<open>15 * healthy\<close> by \<open>total\<close>.
\<close>

theorem health_score_is_weighted_sum:
  "score (calculate_cluster_health fmt m) = spec_score m
   \<and> node_points h t = (if t > 0 then int ((15 * h) div t) else 0)"
  by (simp only: score_eq node_points_div)

theorem health_score_is_weighted_sum_witness:
  "score (calculate_cluster_health whole_part snapshot_halves) = 25 + 15 + 7 + 10 + 10
   \<and> node_points 1 2 = 7 \<and> node_points 2 3 = 10"
  using health_score_is_weighted_sum[of whole_part snapshot_halves 1 2]
    health_score_is_weighted_sum[of whole_part snapshot_halves 2 3]
  by (simp add: spec_score_def snapshot_halves_def example_defs)


section \<open>Properties of the event differ\<close>

lemma state_change_same: "state_change what a a ts = []"
  by (simp add: state_change_def)

lemma length_state_change:
  "length (state_change what p c ts) = (if c \<noteq> p then 1 else 0)"
  by (simp add: state_change_def)

lemma ha_same: "check_ha_state_changes s s ts = []"
  by (simp add: check_ha_state_changes_def state_change_same)

lemma health_same: "check_health_changes s s ts = []"
  by (simp add: check_health_changes_def Let_def)

lemma length_ha:
  "length (check_ha_state_changes current previous ts) = differing_states current previous"
  by (simp add: check_ha_state_changes_def Let_def length_state_change differing_states_def
      state_fields_def)

lemma set_diff_filter:
  assumes "set xs \<noteq> set ys"
  shows "filter (\<lambda>i. i \<notin> set (remdups ys)) (remdups xs) \<noteq> []
       \<or> filter (\<lambda>i. i \<notin> set (remdups xs)) (remdups ys) \<noteq> []"
proof -
  from assms obtain x where "(x \<in> set xs \<and> x \<notin> set ys) \<or> (x \<in> set ys \<and> x \<notin> set xs)"
    by blast
  then show ?thesis
    by (auto simp: filter_empty_conv)
qed

lemma length_health:
  "(if status_differs current previous then 1 else 0)
     + (if issues_differ current previous then 1 else 0)
   \<le> length (check_health_changes current previous ts)"
proof -
  let ?ci = "dict_get_or issues [] (cluster_health current)"
  let ?pi = "dict_get_or issues [] (cluster_health previous)"
  let ?new = "filter (\<lambda>i. i \<notin> set (remdups ?pi)) (remdups ?ci)"
  let ?old = "filter (\<lambda>i. i \<notin> set (remdups ?ci)) (remdups ?pi)"
  have len: "length (check_health_changes current previous ts)
     = (if status_differs current previous then 1 else 0) + length ?new + length ?old"
    by (simp add: check_health_changes_def Let_def status_differs_def)
  have "issues_differ current previous \<Longrightarrow> 1 \<le> length ?new + length ?old"
    using set_diff_filter[of ?ci ?pi] unfolding issues_differ_def
    by (cases ?new; cases ?old) simp_all
  then show ?thesis
    unfolding len by (cases "issues_differ current previous") simp_all
qed

lemma perf_quiet: "(check_performance_issues fmt s ts = []) = performance_quiet s"
  by (auto simp: check_performance_issues_def performance_quiet_def Let_def not_less)

lemma keep_last_append: "keep_last c (keep_last c xs @ ys) = keep_last c (xs @ ys)"
  by (cases "length xs \<le> c") (auto simp: keep_last_def ac_simps)

lemma foldl_add_log:
  assumes "max_logs_size m = int c" "0 < c" "length (logs m) \<le> c"
  shows "logs (foldl (\<lambda>m1 e. add_log m1 (level e) (message e) (log_entry.timestamp e)) m es)
           = keep_last c (logs m @ es)"
  using assms
proof (induction es arbitrary: m)
  case Nil
  then show ?case by (simp add: keep_last_short)
next
  case (Cons e es)
  let ?m = "add_log m (level e) (message e) (log_entry.timestamp e)"
  have e: "log_call (level e) (message e) (log_entry.timestamp e) = e"
    by (simp add: log_call_def)
  have l: "logs ?m = keep_last c (logs m @ [e])" and c: "max_logs_size ?m = int c"
    using add_log_keeps[OF Cons.prems(1,2), of "level e" "message e" "log_entry.timestamp e"]
    by (simp_all add: e Cons.prems)
  have n: "length (logs ?m) \<le> c"
    by (simp add: l length_keep_last)
  have "keep_last c (logs ?m @ es) = keep_last c (logs m @ e # es)"
    unfolding l keep_last_append by simp
  then show ?case
    using Cons.IH[OF c Cons.prems(2) n] by simp
qed

text \<open>
  What \<open>_check_for_events\<close> does to the log buffer once the history has two entries: it
  appends the entries of \<open>event_differ\<close> for the current snapshot and the last but one of
  the history, and the buffer keeps its last \<open>max_logs_size\<close> entries.
\<close>

lemma check_for_events_logs:
  assumes "max_logs_size m = int c" "0 < c" "length (logs m) \<le> c"
    "2 \<le> length (metrics_history m)"
  shows "logs (check_for_events fmt m current ts)
           = keep_last c (logs m
               @ event_differ fmt current
                   (metrics_history m ! (length (metrics_history m) - 2)) ts)"
  using assms(4) foldl_add_log[OF assms(1,2,3)]
  by (simp add: check_for_events_def Let_def)

text \<open>
  C8, as stated, fails: the performance check looks at the current snapshot alone, so two
  identical snapshots with eleven pending applications are logged.
\<close>

theorem identical_snapshots_logged_counterexample:
  "event_differ whole_part (with_health snapshot_backlog) (with_health snapshot_backlog) ''t''
     = [log_call ''warning'' ''High number of pending applications: 11'' ''t'']"
  by code_simp

text \<open>
  C8, amended. For two identical snapshots the state check and the health check log
  nothing, and the differ logs exactly what the performance check logs for that snapshot:
  nothing if and only if its memory use is at most 85 percent (or it has no positive
  total) and it has at most ten pending applications. For any two snapshots, the state
  check logs one entry for each role state that differs, the health check at least one
  entry for a differing status and at least one for differing issue sets, so the differ
  logs at least one entry for each category that differs.
\<close>

theorem differ_identical_and_differing:
  "check_ha_state_changes s s ts = []
   \<and> check_health_changes s s ts = []
   \<and> event_differ fmt s s ts = check_performance_issues fmt s ts
   \<and> (event_differ fmt s s ts = []) = performance_quiet s
   \<and> length (check_ha_state_changes current previous ts) = differing_states current previous
   \<and> (if status_differs current previous then 1 else 0)
        + (if issues_differ current previous then 1 else 0)
      \<le> length (check_health_changes current previous ts)
   \<and> differing_categories current previous \<le> length (event_differ fmt current previous ts)"
  using length_health[of current previous ts]
  by (simp add: event_differ_def ha_same health_same perf_quiet length_ha
      differing_categories_def)

theorem differ_identical_and_differing_witness:
  "performance_quiet (with_health snapshot_full)
   \<and> event_differ whole_part (with_health snapshot_full) (with_health snapshot_full) ''t'' = []
   \<and> differing_categories (with_health snapshot_halves) (with_health snapshot_full) = 3
   \<and> 3 \<le> length (event_differ whole_part (with_health snapshot_halves)
                      (with_health snapshot_full) ''t'')"
proof -
  have a: "performance_quiet (with_health snapshot_full)"
    by code_simp
  have b: "differing_categories (with_health snapshot_halves) (with_health snapshot_full) = 3"
    by code_simp
  from differ_identical_and_differing[of "with_health snapshot_full" "''t''" whole_part
        "with_health snapshot_halves" "with_health snapshot_full"]
  have q: "(event_differ whole_part (with_health snapshot_full) (with_health snapshot_full) ''t''
              = []) = performance_quiet (with_health snapshot_full)"
    and d: "differing_categories (with_health snapshot_halves) (with_health snapshot_full)
              \<le> length (event_differ whole_part (with_health snapshot_halves)
                          (with_health snapshot_full) ''t'')"
    by blast+
  from q a have "event_differ whole_part (with_health snapshot_full) (with_health snapshot_full)
                   ''t'' = []"
    by blast
  with a b d show ?thesis
    by simp
qed


section \<open>Properties of the failover workflow\<close>

lemmas probe_defs = node_up_def node_down_def first_active_def second_active_def
  both_active_def none_active_def probe_stuck_def probe_breaks_def probe_switches_def

lemma check_status_raises:
  "check_status svc (Raises e) =
     \<lparr>step = ''check_status'', step_result.success = False, data = Some [],
      command = None, output = None, step_result.error = Some e\<rparr>"
  by (simp add: check_status_def)

lemma check_status_none_active:
  "\<not> is_active (active st) \<Longrightarrow> \<not> is_active (standby st) \<Longrightarrow>
   check_status svc (Returns st) =
     \<lparr>step = ''check_status'', step_result.success = False, data = Some [],
      command = None, output = None,
      step_result.error = Some (''No active '' @ label svc @ '' found'')\<rparr>"
  by (simp add: check_status_def)

lemma check_status_some_active:
  "is_active (active st) \<or> is_active (standby st) \<Longrightarrow>
   check_status svc (Returns st) =
     \<lparr>step = ''check_status'', step_result.success = True,
      data = Some [(''current_active'', PStr (current_active_of svc st)),
                   (''current_standby'', PStr (current_standby_of svc st)),
                   (''active_status'', PNode (active st)),
                   (''standby_status'', PNode (standby st))],
      command = None, output = None, step_result.error = None\<rparr>"
  by (auto simp: check_status_def current_active_of_def current_standby_of_def)

lemma check_status_success:
  "step_result.success (check_status svc reply) =
     (\<exists>st. reply = Returns st \<and> (is_active (active st) \<or> is_active (standby st)))"
proof (cases reply)
  case (Raises e)
  then show ?thesis by (simp add: check_status_raises)
next
  case (Returns st)
  show ?thesis
  proof (cases "is_active (active st) \<or> is_active (standby st)")
    case True
    then show ?thesis using Returns by (simp add: check_status_some_active)
  next
    case False
    then show ?thesis using Returns by (simp add: check_status_none_active)
  qed
qed

lemma check_status_step: "step (check_status svc reply) = ''check_status''"
  by (auto simp: check_status_def Let_def split: probe_reply.splits)

lemma execute_failover_result:
  "execute_failover svc a b force =
     \<lparr>step = ''execute_failover'', step_result.success = True, data = None,
      command = Some (command_prefix svc @ (if force then ''--forcemanual'' else []) @ '' ''
                        @ a @ '' '' @ b),
      output = Some (output_prefix svc @ a @ '' to '' @ b @ '' initiated''),
      step_result.error = None\<rparr>"
  by (simp add: execute_failover_def)

lemma verify_loop_step:
  "verify_loop svc probe oa attempt n sr latest = Inr (sr', l) \<Longrightarrow> step sr' = step sr"
  by (induction n arbitrary: attempt latest) (auto split: probe_reply.splits if_splits)

lemma verify_failover_step: "step (verify_failover svc probe oa os) = ''verify_failover''"
  by (auto simp: verify_failover_def Let_def split: sum.splits option.splits
      dest: verify_loop_step)

text \<open>The two courses of a run: step 1 fails, or all three steps are taken.\<close>

lemma failover_step1_fails:
  assumes "\<not> step_result.success (check_status svc (probe 0))"
  shows "failover svc probe force =
     \<lparr>type = failover_type svc, success = False,
      steps = [check_status svc (probe 0), error_step (initial_failure svc)],
      error = Some (initial_failure svc)\<rparr>"
  using assms by (simp add: failover_def failover_body_def Let_def initial_failure_def)

lemma failover_step1_ok:
  assumes "probe 0 = Returns st" "is_active (active st) \<or> is_active (standby st)"
  shows "failover svc probe force =
     \<lparr>type = failover_type svc,
      success = step_result.success
        (verify_failover svc (\<lambda>i. probe (Suc i)) (current_active_of svc st)
           (current_standby_of svc st)),
      steps = [check_status svc (probe 0),
               execute_failover svc (current_active_of svc st) (current_standby_of svc st)
                 force,
               verify_failover svc (\<lambda>i. probe (Suc i)) (current_active_of svc st)
                 (current_standby_of svc st)],
      error = None\<rparr>"
  using assms
  by (simp add: failover_def failover_body_def Let_def check_status_some_active
      subscript_str_def execute_failover_result)

lemma str_int_six: "str_int (int max_attempts) = ''6''"
  by code_simp

lemma verify_loop_exhausted:
  assumes "\<forall>i<n. probe (a + i) = Returns (polls (a + i)) \<and> \<not> switched svc oa (polls (a + i))"
  shows "verify_loop svc probe oa a n sr latest
           = Inr (sr, if n = 0 then latest else Some (polls (a + n - 1)))"
  using assms
proof (induction n arbitrary: a latest)
  case 0
  show ?case by simp
next
  case (Suc n)
  from Suc.prems have here: "probe a = Returns (polls a)" "\<not> switched svc oa (polls a)"
    by force+
  have rest: "\<forall>i<n. probe (Suc a + i) = Returns (polls (Suc a + i))
                \<and> \<not> switched svc oa (polls (Suc a + i))"
    using Suc.prems by (metis add_Suc add_Suc_right Suc_less_eq)
  show ?case
    using Suc.IH[OF rest, of "Some (polls a)"] here by (cases n) simp_all
qed

lemma verify_failover_exhausted:
  assumes "\<forall>i<max_attempts. probe i = Returns (polls i) \<and> \<not> switched svc oa (polls i)"
  shows "verify_failover svc probe oa os =
     \<lparr>step = ''verify_failover'', step_result.success = False,
      data = Some [(''failover_verified'', PBool False),
                   (''final_status'', PStatus (polls (max_attempts - 1)))],
      command = None, output = None,
      step_result.error = Some ''Failover verification failed after 6 attempts''\<rparr>"
proof -
  have "\<forall>i<max_attempts. probe (0 + i) = Returns (polls (0 + i))
          \<and> \<not> switched svc oa (polls (0 + i))"
    using assms by simp
  from verify_loop_exhausted[OF this]
  show ?thesis
    by (simp add: verify_failover_def Let_def str_int_six) (simp add: max_attempts_def)
qed

lemma verify_failover_raises_first:
  "probe 0 = Raises e \<Longrightarrow>
   verify_failover svc probe oa os =
     \<lparr>step = ''verify_failover'', step_result.success = False, data = Some [],
      command = None, output = None, step_result.error = Some e\<rparr>"
  by (simp add: verify_failover_def max_attempts_def eval_nat_numeral)

lemma initial_failure_not_command: "initial_failure svc \<noteq> ''Failover command failed: '' @ x"
  by (cases svc) (simp_all add: initial_failure_def)

text \<open>The runs in which an await ends outside \<open>Exception\<close>, and how they relate to the others.\<close>

lemma failover_await_escapes_first:
  "probe_await w 0 = Escapes b \<Longrightarrow> failover_await svc w force = Inl b"
  by (simp add: failover_await_def failover_body_await_def check_status_await_def)

lemma failover_await_stopped:
  assumes "probe_await w 0 = Completes reply" "\<not> step_result.success (check_status svc reply)"
  shows "failover_await svc w force = Inr (stopped_result svc (check_status svc reply))"
  using assms
  by (simp add: failover_await_def failover_body_await_def check_status_await_def Let_def
      stopped_result_def initial_failure_def)

lemma checked_step_eq:
  "is_active (active st) \<or> is_active (standby st) \<Longrightarrow>
   check_status svc (Returns st) = checked_step svc st"
  by (simp add: check_status_some_active checked_step_def)

lemma executed_step_eq:
  "execute_failover svc (current_active_of svc st) (current_standby_of svc st) force
     = executed_step svc st force"
  by (simp add: execute_failover_result executed_step_def)

lemma failover_await_checked:
  assumes "probe_await w 0 = Completes (Returns st)"
    "is_active (active st) \<or> is_active (standby st)"
  shows "failover_await svc w force =
     (case command_sleep w of
        Escapes b \<Rightarrow> Inl b
      | Completes u \<Rightarrow>
          (case settle_sleep w of
             Escapes b \<Rightarrow> Inl b
           | Completes u \<Rightarrow>
               (case verify_failover_await svc w (current_active_of svc st)
                       (current_standby_of svc st) of
                  Inl b \<Rightarrow> Inl b
                | Inr step3 \<Rightarrow> Inr (completed_result svc st force step3))))"
proof -
  have c: "check_status_await svc w = Inr (check_status svc (Returns st))"
    using assms(1) by (simp add: check_status_await_def)
  have ok: "step_result.success (check_status svc (Returns st))"
    using assms(2) by (simp add: check_status_some_active)
  have a: "subscript_str (data (check_status svc (Returns st))) ''current_active''
             = Inr (current_active_of svc st)"
    and b: "subscript_str (data (check_status svc (Returns st))) ''current_standby''
             = Inr (current_standby_of svc st)"
    using assms(2) by (simp_all add: check_status_some_active subscript_str_def)
  have e: "step_result.success (execute_failover svc x y force)" for x y
    by (simp add: execute_failover_result)
  show ?thesis
    unfolding failover_await_def failover_body_await_def Let_def c
    by (simp add: ok a b e execute_failover_await_def completed_result_def
        checked_step_eq[OF assms(2), symmetric] executed_step_eq[symmetric]
        split: awaited.splits sum.splits)
qed

lemma verify_loop_await_skip:
  assumes "quiet_polls svc oa w k"
  shows "verify_loop_await svc w oa 0 (k + m) sr latest
           = verify_loop_await svc w oa k m sr
               (if k = 0 then latest else returned (probe_await w k))"
  using assms
proof (induction k arbitrary: m)
  case 0
  show ?case by simp
next
  case (Suc k)
  from Suc.prems have q: "quiet_polls svc oa w k" and sl: "poll_sleep w k = Completes ()"
    by simp_all
  from Suc.prems obtain s where s: "probe_await w (Suc k) = Completes (Returns s)"
    "\<not> switched svc oa s"
    by (auto split: awaited.splits probe_reply.splits)
  have "verify_loop_await svc w oa 0 (Suc k + m) sr latest
          = verify_loop_await svc w oa k (Suc m) sr
              (if k = 0 then latest else returned (probe_await w k))"
    using Suc.IH[OF q, of "Suc m"] by simp
  also have "\<dots> = verify_loop_await svc w oa (Suc k) m sr (Some s)"
    using sl s by simp
  finally show ?case
    by (simp add: s returned_def)
qed

lemma verify_at:
  assumes "k < max_attempts" "quiet_polls svc oa w k"
  shows "verify_loop_await svc w oa 0 max_attempts sr None
           = verify_loop_await svc w oa k (Suc (max_attempts - Suc k)) sr
               (if k = 0 then None else returned (probe_await w k))"
proof -
  have "max_attempts = k + Suc (max_attempts - Suc k)"
    using assms(1) by simp
  then show ?thesis
    using verify_loop_await_skip[OF assms(2), of "Suc (max_attempts - Suc k)" sr None]
    by simp
qed

lemma verify_await_sleep_escapes:
  assumes "k < max_attempts" "quiet_polls svc oa w k" "poll_sleep w k = Escapes b"
  shows "verify_failover_await svc w oa os = Inl b"
  using assms(3) by (simp add: verify_failover_await_def verify_at[OF assms(1,2)])

lemma verify_await_probe_escapes:
  assumes "k < max_attempts" "quiet_polls svc oa w k" "poll_sleep w k = Completes ()"
    "probe_await w (Suc k) = Escapes b"
  shows "verify_failover_await svc w oa os = Inl b"
  using assms(3,4) by (simp add: verify_failover_await_def verify_at[OF assms(1,2)])

lemma verify_await_probe_raises:
  assumes "k < max_attempts" "quiet_polls svc oa w k" "poll_sleep w k = Completes ()"
    "probe_await w (Suc k) = Completes (Raises e)"
  shows "verify_failover_await svc w oa os = Inr (verify_raised_step e)"
  using assms(3,4)
  by (simp add: verify_failover_await_def verify_at[OF assms(1,2)] verify_raised_step_def)

lemma verify_await_switched_general:
  assumes "k < max_attempts" "quiet_polls svc oa w k" "poll_sleep w k = Completes ()"
    "probe_await w (Suc k) = Completes (Returns s)" "switched svc oa s"
  shows "verify_failover_await svc w oa os =
     Inr \<lparr>step = ''verify_failover'', step_result.success = True,
          data = Some [(''failover_verified'', PBool True),
                       (''new_active'',
                          PStr (if oa = active_node_name svc then standby_node_name svc
                                else active_node_name svc)),
                       (''new_standby'', PStr oa),
                       (''attempts'', PInt (int k + 1)),
                       (''final_status'', PStatus s)],
          command = None, output = None, step_result.error = None\<rparr>"
  using assms(3,4,5) by (simp add: verify_failover_await_def verify_at[OF assms(1,2)])

lemma new_active_name:
  "(if current_active_of svc st = active_node_name svc then standby_node_name svc
    else active_node_name svc) = current_standby_of svc st"
  by (cases svc) (simp_all add: current_active_of_def current_standby_of_def)

lemma verify_await_switched:
  assumes "k < max_attempts" "quiet_polls svc (current_active_of svc st) w k"
    "poll_sleep w k = Completes ()"
    "probe_await w (Suc k) = Completes (Returns s)" "switched svc (current_active_of svc st) s"
  shows "verify_failover_await svc w (current_active_of svc st) os
           = Inr (verified_step svc st k s)"
  unfolding verify_await_switched_general[OF assms] new_active_name verified_step_def
  by simp

lemma verify_await_exhausted:
  assumes "quiet_polls svc oa w max_attempts"
    "probe_await w max_attempts = Completes (Returns s)"
  shows "verify_failover_await svc w oa os = Inr (verify_exhausted_step s)"
proof -
  have "verify_loop_await svc w oa 0 max_attempts sr None
          = Done (sr, returned (probe_await w max_attempts))" for sr
    using verify_loop_await_skip[OF assms(1), of 0 sr None]
    by (simp add: max_attempts_def)
  then show ?thesis
    using assms(2)
    by (simp add: verify_failover_await_def returned_def verify_exhausted_step_def str_int_six)
qed

lemma verify_loop_await_step:
  "verify_loop_await svc w oa attempt n sr latest = Done (sr', l) \<Longrightarrow> step sr' = step sr"
  by (induction n arbitrary: attempt latest)
    (auto split: awaited.splits probe_reply.splits if_splits)

lemma verify_failover_await_step:
  "verify_failover_await svc w oa os = Inr s3 \<Longrightarrow> step s3 = ''verify_failover''"
  by (auto simp: verify_failover_await_def Let_def
      split: outcome.splits option.splits if_splits dest: verify_loop_await_step)

lemma verify_loop_quiet:
  "verify_loop_await svc (quiet_awaits probe) oa attempt n sr latest
     = (case verify_loop svc (\<lambda>i. probe (Suc i)) oa attempt n sr latest of
          Inl e \<Rightarrow> Raised e
        | Inr x \<Rightarrow> Done x)"
  by (induction n arbitrary: attempt latest)
    (auto simp: quiet_awaits_def split: probe_reply.splits)

lemma verify_failover_quiet:
  "verify_failover_await svc (quiet_awaits probe) oa os
     = Inr (verify_failover svc (\<lambda>i. probe (Suc i)) oa os)"
  by (simp add: verify_failover_await_def verify_failover_def verify_loop_quiet Let_def
      split: sum.splits)

lemma failover_quiet:
  "failover_await svc (quiet_awaits probe) force = Inr (failover svc probe force)"
proof -
  have c: "check_status_await svc (quiet_awaits probe) = Inr (check_status svc (probe 0))"
    by (simp add: check_status_await_def quiet_awaits_def)
  have e: "execute_failover_await svc (quiet_awaits probe) a b force
             = Inr (execute_failover svc a b force)" for a b
    by (simp add: execute_failover_await_def quiet_awaits_def)
  have s: "settle_sleep (quiet_awaits probe) = Completes ()"
    by (simp add: quiet_awaits_def)
  show ?thesis
    by (simp add: failover_await_def failover_def failover_body_await_def failover_body_def
        c e s verify_failover_quiet Let_def split: sum.splits)
qed

lemma failed_check_raises: "check_status svc (Raises e) = failed_check_step e"
  by (simp add: check_status_raises failed_check_step_def)

lemma failed_check_none:
  "\<not> is_active (active st) \<Longrightarrow> \<not> is_active (standby st) \<Longrightarrow>
   check_status svc (Returns st) = failed_check_step (''No active '' @ label svc @ '' found'')"
  by (simp add: check_status_none_active failed_check_step_def)

lemma failover_await_shapes:
  assumes "failover_await svc w force = Inr res"
  shows "(\<exists>s1. res = stopped_result svc s1 \<and> step s1 = ''check_status'')
       \<or> (\<exists>st s3. res = completed_result svc st force s3 \<and> step s3 = ''verify_failover'')"
proof (cases "probe_await w 0")
  case (Escapes b)
  with assms show ?thesis by (simp add: failover_await_escapes_first)
next
  case (Completes reply)
  show ?thesis
  proof (cases "step_result.success (check_status svc reply)")
    case False
    from failover_await_stopped[OF Completes False, of force] assms
    show ?thesis by (auto simp: check_status_step)
  next
    case True
    then obtain st where st: "reply = Returns st"
      "is_active (active st) \<or> is_active (standby st)"
      by (auto simp: check_status_success)
    from Completes st have p: "probe_await w 0 = Completes (Returns st)" by simp
    from assms show ?thesis
      unfolding failover_await_checked[OF p st(2)]
      by (auto split: awaited.splits sum.splits dest: verify_failover_await_step)
  qed
qed

lemma success_iff_verified:
  assumes "failover_await svc w force = Inr res"
  shows "failover_result.success res
           = (length (steps res) = 3 \<and> step (last (steps res)) = ''verify_failover''
              \<and> step_result.success (last (steps res)))"
  using failover_await_shapes[OF assms]
  by (auto simp: stopped_result_def completed_result_def error_step_def)

text \<open>
  C1, as stated, fails: an exception raised while the verification polls is caught inside
  step 3 and recorded in that step's own \<open>error\<close>; no step of kind \<open>error\<close> is appended and
  the top-level \<open>error\<close> stays \<open>None\<close>. And a cancellation that arrives during a sleep of
  the verification is not caught at all: it leaves the call.
\<close>

theorem exception_not_converted_counterexample:
  "map step (steps (namenode_failover probe_breaks False))
     = [''check_status'', ''execute_failover'', ''verify_failover'']
   \<and> step_result.error (last (steps (namenode_failover probe_breaks False))) = Some ''boom''
   \<and> failover_result.error (namenode_failover probe_breaks False) = None
   \<and> namenode_failover_await awaits_cancelled False = Inl ''CancelledError''"
  by code_simp

text \<open>
  C1, amended. For either service, any force flag and any behaviour of the probe and of
  the sleeps, a run ends in exactly one of these ways.

  \<^item> An exception outside \<open>Exception\<close> (a cancellation) raised by an await that the run
    reaches is caught by no handler and leaves the workflow: the call propagates it. The
    awaits a run reaches are the status request of step 1; after a successful step 1 the
    sleep of step 2 and the sleep before step 3; and in attempt \<open>k\<close> of the verification,
    when the earlier attempts neither saw the switch nor ended in an exception, the sleep
    and the status request of that attempt.
  \<^item> Otherwise the call returns a result. If the status request of step 1 raises an
    \<open>Exception\<close>, that step records its message in its own \<open>error\<close>; if it returns two
    records of which neither is active, the step records that no active instance was
    found. In both cases the workflow raises, an \<open>error\<close> step with the message of the
    workflow's exception is appended after the failed step, the top-level \<open>error\<close> is
    that message and \<open>success\<close> is false.
  \<^item> If step 1 succeeds, steps 2 and 3 are taken, no \<open>error\<close> step is appended and the
    top-level \<open>error\<close> stays unset, whatever step 3 records: the \<open>Exception\<close> of a status
    request (in its own \<open>error\<close>, with \<open>success\<close> false), the switch seen in attempt \<open>k\<close>
    (with \<open>success\<close> true), or six attempts without the switch.

  In every returned result, \<open>success\<close> is true if and only if the result has three steps
  of which the last is the verification step and has succeeded. The workflow of the first
  sections is this one on the runs in which every await completes.
\<close>

theorem failover_outcome:
  "(\<forall>b. probe_await w 0 = Escapes b \<longrightarrow> failover_await svc w force = Inl b)
   \<and> (\<forall>e. probe_await w 0 = Completes (Raises e) \<longrightarrow>
          failover_await svc w force = Inr (stopped_result svc (failed_check_step e)))
   \<and> (\<forall>st. probe_await w 0 = Completes (Returns st)
            \<and> \<not> is_active (active st) \<and> \<not> is_active (standby st) \<longrightarrow>
          failover_await svc w force
            = Inr (stopped_result svc
                     (failed_check_step (''No active '' @ label svc @ '' found''))))
   \<and> (\<forall>st. probe_await w 0 = Completes (Returns st)
            \<and> (is_active (active st) \<or> is_active (standby st)) \<longrightarrow>
          (\<forall>b. command_sleep w = Escapes b \<longrightarrow> failover_await svc w force = Inl b)
        \<and> (\<forall>b. command_sleep w = Completes () \<and> settle_sleep w = Escapes b \<longrightarrow>
               failover_await svc w force = Inl b)
        \<and> (command_sleep w = Completes () \<and> settle_sleep w = Completes () \<longrightarrow>
             (\<forall>k. k < max_attempts \<and> quiet_polls svc (current_active_of svc st) w k \<longrightarrow>
                (\<forall>b. poll_sleep w k = Escapes b \<longrightarrow> failover_await svc w force = Inl b)
              \<and> (\<forall>b. poll_sleep w k = Completes () \<and> probe_await w (Suc k) = Escapes b \<longrightarrow>
                     failover_await svc w force = Inl b)
              \<and> (\<forall>e. poll_sleep w k = Completes ()
                       \<and> probe_await w (Suc k) = Completes (Raises e) \<longrightarrow>
                     failover_await svc w force
                       = Inr (completed_result svc st force (verify_raised_step e)))
              \<and> (\<forall>s. poll_sleep w k = Completes ()
                       \<and> probe_await w (Suc k) = Completes (Returns s)
                       \<and> switched svc (current_active_of svc st) s \<longrightarrow>
                     failover_await svc w force
                       = Inr (completed_result svc st force (verified_step svc st k s))))
           \<and> (\<forall>s. quiet_polls svc (current_active_of svc st) w max_attempts
                    \<and> probe_await w max_attempts = Completes (Returns s) \<longrightarrow>
                  failover_await svc w force
                    = Inr (completed_result svc st force (verify_exhausted_step s)))))
   \<and> (\<forall>res. failover_await svc w force = Inr res \<longrightarrow>
          failover_result.success res
            = (length (steps res) = 3 \<and> step (last (steps res)) = ''verify_failover''
               \<and> step_result.success (last (steps res))))
   \<and> failover_await svc (quiet_awaits probe) force = Inr (failover svc probe force)"
proof (intro conjI allI impI)
  fix b assume "probe_await w 0 = Escapes b"
  then show "failover_await svc w force = Inl b"
    by (rule failover_await_escapes_first)
next
  fix e assume p: "probe_await w 0 = Completes (Raises e)"
  have "\<not> step_result.success (check_status svc (Raises e))"
    by (simp add: check_status_raises)
  from failover_await_stopped[OF p this, of force]
  show "failover_await svc w force = Inr (stopped_result svc (failed_check_step e))"
    by (simp add: failed_check_raises)
next
  fix st
  assume a: "probe_await w 0 = Completes (Returns st)
             \<and> \<not> is_active (active st) \<and> \<not> is_active (standby st)"
  then have "\<not> step_result.success (check_status svc (Returns st))"
    by (simp add: check_status_none_active)
  from failover_await_stopped[OF conjunct1[OF a] this, of force] a
  show "failover_await svc w force
          = Inr (stopped_result svc (failed_check_step (''No active '' @ label svc @ '' found'')))"
    by (simp add: failed_check_none)
next
  fix st b
  assume a: "probe_await w 0 = Completes (Returns st)
             \<and> (is_active (active st) \<or> is_active (standby st))"
    and c: "command_sleep w = Escapes b"
  show "failover_await svc w force = Inl b"
    unfolding failover_await_checked[OF conjunct1[OF a] conjunct2[OF a]] using c by simp
next
  fix st b
  assume a: "probe_await w 0 = Completes (Returns st)
             \<and> (is_active (active st) \<or> is_active (standby st))"
    and c: "command_sleep w = Completes () \<and> settle_sleep w = Escapes b"
  show "failover_await svc w force = Inl b"
    unfolding failover_await_checked[OF conjunct1[OF a] conjunct2[OF a]] using c by simp
next
  fix st k b
  assume a: "probe_await w 0 = Completes (Returns st)
             \<and> (is_active (active st) \<or> is_active (standby st))"
    and c: "command_sleep w = Completes () \<and> settle_sleep w = Completes ()"
    and k: "k < max_attempts \<and> quiet_polls svc (current_active_of svc st) w k"
    and p: "poll_sleep w k = Escapes b"
  show "failover_await svc w force = Inl b"
    unfolding failover_await_checked[OF conjunct1[OF a] conjunct2[OF a]]
    using c verify_await_sleep_escapes[OF conjunct1[OF k] conjunct2[OF k] p] by simp
next
  fix st k b
  assume a: "probe_await w 0 = Completes (Returns st)
             \<and> (is_active (active st) \<or> is_active (standby st))"
    and c: "command_sleep w = Completes () \<and> settle_sleep w = Completes ()"
    and k: "k < max_attempts \<and> quiet_polls svc (current_active_of svc st) w k"
    and p: "poll_sleep w k = Completes () \<and> probe_await w (Suc k) = Escapes b"
  show "failover_await svc w force = Inl b"
    unfolding failover_await_checked[OF conjunct1[OF a] conjunct2[OF a]]
    using c verify_await_probe_escapes[OF conjunct1[OF k] conjunct2[OF k] conjunct1[OF p]
        conjunct2[OF p]]
    by simp
next
  fix st k e
  assume a: "probe_await w 0 = Completes (Returns st)
             \<and> (is_active (active st) \<or> is_active (standby st))"
    and c: "command_sleep w = Completes () \<and> settle_sleep w = Completes ()"
    and k: "k < max_attempts \<and> quiet_polls svc (current_active_of svc st) w k"
    and p: "poll_sleep w k = Completes () \<and> probe_await w (Suc k) = Completes (Raises e)"
  show "failover_await svc w force = Inr (completed_result svc st force (verify_raised_step e))"
    unfolding failover_await_checked[OF conjunct1[OF a] conjunct2[OF a]]
    using c verify_await_probe_raises[OF conjunct1[OF k] conjunct2[OF k] conjunct1[OF p]
        conjunct2[OF p]]
    by simp
next
  fix st k s
  assume a: "probe_await w 0 = Completes (Returns st)
             \<and> (is_active (active st) \<or> is_active (standby st))"
    and c: "command_sleep w = Completes () \<and> settle_sleep w = Completes ()"
    and k: "k < max_attempts \<and> quiet_polls svc (current_active_of svc st) w k"
    and p: "poll_sleep w k = Completes () \<and> probe_await w (Suc k) = Completes (Returns s)
            \<and> switched svc (current_active_of svc st) s"
  from p have p1: "poll_sleep w k = Completes ()"
    and p2: "probe_await w (Suc k) = Completes (Returns s)"
    and p3: "switched svc (current_active_of svc st) s" by simp_all
  show "failover_await svc w force
          = Inr (completed_result svc st force (verified_step svc st k s))"
    unfolding failover_await_checked[OF conjunct1[OF a] conjunct2[OF a]]
    using c verify_await_switched[OF conjunct1[OF k] conjunct2[OF k] p1 p2 p3]
    by simp
next
  fix st s
  assume a: "probe_await w 0 = Completes (Returns st)
             \<and> (is_active (active st) \<or> is_active (standby st))"
    and c: "command_sleep w = Completes () \<and> settle_sleep w = Completes ()"
    and q: "quiet_polls svc (current_active_of svc st) w max_attempts
            \<and> probe_await w max_attempts = Completes (Returns s)"
  show "failover_await svc w force
          = Inr (completed_result svc st force (verify_exhausted_step s))"
    unfolding failover_await_checked[OF conjunct1[OF a] conjunct2[OF a]]
    using c verify_await_exhausted[OF conjunct1[OF q] conjunct2[OF q]] by simp
next
  fix res assume "failover_await svc w force = Inr res"
  then show "failover_result.success res
            = (length (steps res) = 3 \<and> step (last (steps res)) = ''verify_failover''
               \<and> step_result.success (last (steps res)))"
    by (rule success_iff_verified)
next
  show "failover_await svc (quiet_awaits probe) force = Inr (failover svc probe force)"
    by (rule failover_quiet)
qed


theorem failover_outcome_witness:
  "resourcemanager_failover_await (quiet_awaits probe_switches) True
     = Inr (completed_result ResourceManager first_active True
              (verified_step ResourceManager first_active 2 second_active))
   \<and> namenode_failover_await (quiet_awaits probe_fails_late) False
     = Inr (completed_result NameNode first_active False (verify_raised_step ''timed out''))
   \<and> namenode_failover_await awaits_cancelled False = Inl ''CancelledError''
   \<and> namenode_failover_await (quiet_awaits (\<lambda>i. Raises ''refused'')) False
     = Inr (stopped_result NameNode (failed_check_step ''refused''))"
proof -
  have sleeps: "command_sleep (quiet_awaits p) = Completes ()
                \<and> settle_sleep (quiet_awaits p) = Completes ()" for p
    by (simp add: quiet_awaits_def)
  have s1: "probe_await (quiet_awaits probe_switches) 0 = Completes (Returns first_active)
            \<and> (is_active (active first_active) \<or> is_active (standby first_active))"
    by (simp add: quiet_awaits_def probe_defs)
  have s2: "2 < max_attempts
            \<and> quiet_polls ResourceManager (current_active_of ResourceManager first_active)
                 (quiet_awaits probe_switches) 2"
    by code_simp
  have s3: "poll_sleep (quiet_awaits probe_switches) 2 = Completes ()
            \<and> probe_await (quiet_awaits probe_switches) (Suc 2) = Completes (Returns second_active)
            \<and> switched ResourceManager (current_active_of ResourceManager first_active)
                 second_active"
    by code_simp
  have one: "failover_await ResourceManager (quiet_awaits probe_switches) True
     = Inr (completed_result ResourceManager first_active True
              (verified_step ResourceManager first_active 2 second_active))"
    using failover_outcome[of "quiet_awaits probe_switches" ResourceManager True probe_switches]
      s1 s2 s3 sleeps[of probe_switches]
    by blast
  have l1: "probe_await (quiet_awaits probe_fails_late) 0 = Completes (Returns first_active)
            \<and> (is_active (active first_active) \<or> is_active (standby first_active))"
    by (simp add: quiet_awaits_def probe_defs probe_fails_late_def)
  have l2: "3 < max_attempts
            \<and> quiet_polls NameNode (current_active_of NameNode first_active)
                 (quiet_awaits probe_fails_late) 3"
    by code_simp
  have l3: "poll_sleep (quiet_awaits probe_fails_late) 3 = Completes ()
            \<and> probe_await (quiet_awaits probe_fails_late) (Suc 3) = Completes (Raises ''timed out'')"
    by code_simp
  have two: "failover_await NameNode (quiet_awaits probe_fails_late) False
     = Inr (completed_result NameNode first_active False (verify_raised_step ''timed out''))"
    using failover_outcome[of "quiet_awaits probe_fails_late" NameNode False probe_fails_late]
      l1 l2 l3 sleeps[of probe_fails_late]
    by blast
  have c1: "probe_await awaits_cancelled 0 = Completes (Returns first_active)
            \<and> (is_active (active first_active) \<or> is_active (standby first_active))"
    by (simp add: awaits_cancelled_def quiet_awaits_def probe_defs)
  have c2: "command_sleep awaits_cancelled = Completes ()
            \<and> settle_sleep awaits_cancelled = Completes ()"
    by (simp add: awaits_cancelled_def quiet_awaits_def)
  have c3: "1 < max_attempts
            \<and> quiet_polls NameNode (current_active_of NameNode first_active) awaits_cancelled 1"
    by code_simp
  have c4: "poll_sleep awaits_cancelled 1 = Escapes ''CancelledError''"
    by (simp add: awaits_cancelled_def)
  have three: "failover_await NameNode awaits_cancelled False = Inl ''CancelledError''"
    using failover_outcome[of awaits_cancelled NameNode False probe_stuck] c1 c2 c3 c4
    by blast
  have r1: "probe_await (quiet_awaits (\<lambda>i. Raises ''refused'')) 0 = Completes (Raises ''refused'')"
    by (simp add: quiet_awaits_def)
  have four: "failover_await NameNode (quiet_awaits (\<lambda>i. Raises ''refused'')) False
     = Inr (stopped_result NameNode (failed_check_step ''refused''))"
    using failover_outcome[of "quiet_awaits (\<lambda>i. Raises ''refused'')" NameNode False probe_stuck]
      r1
    by blast
  show ?thesis
    using one two three four
    by (simp only: namenode_failover_await_def resourcemanager_failover_await_def)
qed

text \<open>
  C5, as stated, fails: when both slots report themselves active, step 1 succeeds and
  takes the first slot as the active node.
\<close>

theorem both_active_accepted_counterexample:
  "is_active (active both_active) \<and> is_active (standby both_active)
   \<and> step_result.success (check_namenode_status (Returns both_active))
   \<and> step_result.error (check_namenode_status (Returns both_active)) = None"
  by code_simp

text \<open>
  C5, amended. For every pair of status records that the probe returns, step 1 succeeds
  if and only if at least one slot reports itself active. If the first slot does, the step
  records the first node as the active and the second as the standby node, whatever the
  second slot reports; if only the second slot does, it records them the other way round;
  if neither does, the step fails with the error that no active instance was found and
  records no roles. (\<open>_check_namenode_status\<close> and \<open>_check_resourcemanager_status\<close> are
  \<open>check_status\<close> at \<open>NameNode\<close> and at \<open>ResourceManager\<close>.)
\<close>

theorem check_status_roles:
  "step_result.success (check_status svc (Returns st))
       = (is_active (active st) \<or> is_active (standby st))
   \<and> (is_active (active st) \<longrightarrow>
        step_data_get (check_status svc (Returns st)) ''current_active''
          = Some (PStr (active_node_name svc))
      \<and> step_data_get (check_status svc (Returns st)) ''current_standby''
          = Some (PStr (standby_node_name svc)))
   \<and> (\<not> is_active (active st) \<and> is_active (standby st) \<longrightarrow>
        step_data_get (check_status svc (Returns st)) ''current_active''
          = Some (PStr (standby_node_name svc))
      \<and> step_data_get (check_status svc (Returns st)) ''current_standby''
          = Some (PStr (active_node_name svc)))
   \<and> (\<not> is_active (active st) \<and> \<not> is_active (standby st) \<longrightarrow>
        step_result.error (check_status svc (Returns st))
          = Some (''No active '' @ label svc @ '' found'')
      \<and> data (check_status svc (Returns st)) = Some [])"
  by (auto simp: check_status_def step_data_get_def)

theorem check_status_roles_witness:
  "step_result.success (check_resourcemanager_status (Returns second_active))
   \<and> step_data_get (check_resourcemanager_status (Returns second_active)) ''current_active''
       = Some (PStr ''standby-rm'')
   \<and> step_data_get (check_resourcemanager_status (Returns second_active)) ''current_standby''
       = Some (PStr ''active-rm'')
   \<and> step_result.error (check_namenode_status (Returns none_active))
       = Some ''No active NameNode found''"
  using check_status_roles[of ResourceManager second_active]
    check_status_roles[of NameNode none_active]
  by (simp add: probe_defs check_namenode_status_def check_resourcemanager_status_def)

text \<open>
  C6, as stated, fails: when step 1 fails, the result has two steps, the failed
  \<open>check_status\<close> step and the \<open>error\<close> step that the handler of the workflow appends.
\<close>

theorem two_steps_counterexample:
  "\<not> is_active (active none_active) \<and> \<not> is_active (standby none_active)
   \<and> \<not> length (steps (namenode_failover (\<lambda>i. Returns none_active) False)) = 1
   \<and> map step (steps (namenode_failover (\<lambda>i. Returns none_active) False))
       = [''check_status'', ''error'']"
  by code_simp

text \<open>
  C6, amended. If both probed records report themselves not active, the result has
  \<open>success = False\<close>, exactly two steps (the failed \<open>check_status\<close> step, whose error says
  that no active instance was found, and an \<open>error\<close> step) and the non-empty error
  \<open>Failed to get initial ... status\<close>.
\<close>

theorem no_active_instance:
  assumes "probe 0 = Returns st" "\<not> is_active (active st)" "\<not> is_active (standby st)"
  shows "failover svc probe force =
     \<lparr>type = failover_type svc, success = False,
      steps = [\<lparr>step = ''check_status'', step_result.success = False, data = Some [],
                command = None, output = None,
                step_result.error = Some (''No active '' @ label svc @ '' found'')\<rparr>,
               error_step (''Failed to get initial '' @ label svc @ '' status'')],
      error = Some (''Failed to get initial '' @ label svc @ '' status'')\<rparr>"
proof -
  have "\<not> step_result.success (check_status svc (probe 0))"
    using assms by (simp add: check_status_none_active)
  from failover_step1_fails[of svc probe, OF this] show ?thesis
    using assms by (simp add: check_status_none_active initial_failure_def)
qed

theorem no_active_instance_witness:
  "\<not> failover_result.success (namenode_failover (\<lambda>i. Returns none_active) False)
   \<and> length (steps (namenode_failover (\<lambda>i. Returns none_active) False)) = 2
   \<and> failover_result.error (namenode_failover (\<lambda>i. Returns none_active) False)
       = Some ''Failed to get initial NameNode status''"
  using no_active_instance[of "\<lambda>i. Returns none_active" none_active NameNode False]
  by (simp add: namenode_failover_def probe_defs)

text \<open>
  C7, as stated, fails: after six polls that never see the switch, the \<open>data\<close> of the
  verification step has no entry \<open>attempts\<close>; the count is only in the step's error
  message.
\<close>

theorem attempts_not_in_data_counterexample:
  "step (last (steps (namenode_failover probe_stuck False))) = ''verify_failover''
   \<and> \<not> step_result.success (last (steps (namenode_failover probe_stuck False)))
   \<and> step_data_get (last (steps (namenode_failover probe_stuck False))) ''attempts'' = None"
  by code_simp

text \<open>
  C7, amended. If step 1 succeeds and none of the six polls of the verification sees the
  switch (the old standby active and the old active not active), the result has
  \<open>success = False\<close> and no top-level error, and its third and last step is an ordinary
  unsuccessful \<open>verify_failover\<close> step: its error message
  \<open>Failover verification failed after 6 attempts\<close> carries the number of attempts, and its
  \<open>data\<close> holds \<open>failover_verified = False\<close> and the status observed by the last poll.
\<close>

theorem verification_exhausted:
  assumes "probe 0 = Returns st" "is_active (active st) \<or> is_active (standby st)"
    "\<forall>i<max_attempts. probe (Suc i) = Returns (polls i)
        \<and> \<not> switched svc (current_active_of svc st) (polls i)"
  shows "\<not> failover_result.success (failover svc probe force)
   \<and> failover_result.error (failover svc probe force) = None
   \<and> length (steps (failover svc probe force)) = 3
   \<and> last (steps (failover svc probe force)) =
       \<lparr>step = ''verify_failover'', step_result.success = False,
        data = Some [(''failover_verified'', PBool False),
                     (''final_status'', PStatus (polls 5))],
        command = None, output = None,
        step_result.error = Some ''Failover verification failed after 6 attempts''\<rparr>"
  unfolding failover_step1_ok[of probe, OF assms(1,2)]
  using verify_failover_exhausted
      [of "\<lambda>i. probe (Suc i)" polls svc "current_active_of svc st" "current_standby_of svc st"]
    assms(3)
  by (simp add: max_attempts_def)

theorem verification_exhausted_witness:
  "\<not> failover_result.success (namenode_failover probe_stuck False)
   \<and> failover_result.error (namenode_failover probe_stuck False) = None
   \<and> step_result.error (last (steps (namenode_failover probe_stuck False)))
       = Some ''Failover verification failed after 6 attempts''
   \<and> data (last (steps (namenode_failover probe_stuck False)))
       = Some [(''failover_verified'', PBool False), (''final_status'', PStatus first_active)]"
proof -
  have a: "probe_stuck 0 = Returns first_active"
    by (simp add: probe_stuck_def)
  have b: "is_active (active first_active) \<or> is_active (standby first_active)"
    by (simp add: probe_defs)
  have c: "\<forall>i<max_attempts. probe_stuck (Suc i) = Returns ((\<lambda>i. first_active) i)
        \<and> \<not> switched NameNode (current_active_of NameNode first_active)
              ((\<lambda>i. first_active) i)"
    by (simp add: probe_defs switched_def current_active_of_def)
  show ?thesis
    using verification_exhausted[OF a b c, of False]
    by (simp add: namenode_failover_def)
qed

text \<open>
  C9. For every pair of node names and every force flag, step 2 of either workflow
  returns \<open>success = True\<close> with no error, and no run of either workflow ends with the
  error \<open>Failover command failed: ...\<close>: the branch that aborts on a failed command is never
  taken.
\<close>

theorem execute_step_always_succeeds:
  "step_result.success (execute_namenode_failover current_active current_standby force)
   \<and> step_result.error (execute_namenode_failover current_active current_standby force) = None
   \<and> step_result.success (execute_resourcemanager_failover current_active current_standby force)
   \<and> step_result.error (execute_resourcemanager_failover current_active current_standby force)
       = None
   \<and> failover_result.error (namenode_failover probe force)
       \<noteq> Some (''Failover command failed: '' @ x)
   \<and> failover_result.error (resourcemanager_failover probe force)
       \<noteq> Some (''Failover command failed: '' @ x)"
proof -
  have "failover_result.error (failover svc probe force)
          \<noteq> Some (''Failover command failed: '' @ x)" for svc
  proof (cases "step_result.success (check_status svc (probe 0))")
    case False
    show ?thesis
      unfolding failover_step1_fails[of svc probe, OF False]
      using initial_failure_not_command[of svc x] by simp
  next
    case True
    then obtain st
      where st: "probe 0 = Returns st" "is_active (active st) \<or> is_active (standby st)"
      by (auto simp: check_status_success)
    show ?thesis
      unfolding failover_step1_ok[of probe, OF st] by simp
  qed
  then show ?thesis
    by (simp add: execute_namenode_failover_def execute_resourcemanager_failover_def
        execute_failover_result namenode_failover_def resourcemanager_failover_def)
qed

theorem execute_step_always_succeeds_witness:
  "step_result.success (execute_namenode_failover ''active-nn'' ''standby-nn'' True)
   \<and> command (execute_namenode_failover ''active-nn'' ''standby-nn'' True)
       = Some ''docker exec active-nn /usr/local/hadoop/bin/hdfs haadmin -failover --forcemanual active-nn standby-nn''
   \<and> failover_result.error (namenode_failover probe_stuck True)
       \<noteq> Some ''Failover command failed: None''"
  using execute_step_always_succeeds
      [of "''active-nn''" "''standby-nn''" True probe_stuck "''None''"]
  by (simp add: execute_namenode_failover_def execute_failover_result)

end
